theory Spec2Isabelle
  imports Main "HOL-Library.Word"
begin

section \<open>RoadSMTP: the message model\<close>

text \<open>
  The development follows \<^verbatim>\<open>src/roadsmtp/smtp.py\<close>. Python objects become records,
  exceptions become values of \<open>exn\<close>, and the methods of \<^verbatim>\<open>SMTPClient\<close> become
  functions that take the client state and return the new one.
\<close>

type_synonym byte = "8 word"

type_synonym header = "string \<times> string"

datatype exn =
    SMTPError string
  | OSError
  | AttributeError
  | ValueError
  | TypeError
  | HeaderParseError

text \<open>
  \<^verbatim>\<open>SMTPConfig\<close>. The field \<^verbatim>\<open>timeout\<close> is only handed to \<^verbatim>\<open>settimeout\<close>; what it causes
  (a read that raises) is an event of the transport below, so the field is left out.
\<close>

record smtp_config =
  host :: string
  port :: int
  username :: string
  password :: string
  use_tls :: bool

record attachment =
  filename :: string
  content :: "byte list"
  content_type :: string

text \<open>
  \<^verbatim>\<open>Email\<close>. The dict \<^verbatim>\<open>headers\<close> is an association list in insertion order, which is the
  order \<^verbatim>\<open>items()\<close> yields; a dict has distinct keys.
\<close>

record email =
  to :: "string list"
  subject :: string
  body :: string
  html :: string
  from_addr :: string
  cc :: "string list"
  bcc :: "string list"
  reply_to :: string
  attachments :: "attachment list"
  headers :: "header list"

section \<open>Library functions the client calls\<close>

subsection \<open>Strings\<close>

text \<open>\<^verbatim>\<open>sep.join(xs)\<close>\<close>

fun join :: "string \<Rightarrow> string list \<Rightarrow> string" where
  "join sep [] = []"
| "join sep [x] = x"
| "join sep (x # y # ys) = x @ sep @ join sep (y # ys)"

text \<open>\<^verbatim>\<open>s.split(c, 1)\<close>: one piece when \<open>c\<close> does not occur, otherwise the text before the
  first \<open>c\<close> and the text after it.\<close>

definition split1 :: "char \<Rightarrow> string \<Rightarrow> string list" where
  "split1 c s =
     (if c \<in> set s then [takeWhile (\<lambda>x. x \<noteq> c) s, tl (dropWhile (\<lambda>x. x \<noteq> c) s)]
      else [s])"

subsection \<open>Base64\<close>

definition b64chars :: string where
  "b64chars = ''ABCDEFGHIJKLMNOPQRSTUVWXYZabcdefghijklmnopqrstuvwxyz0123456789+/''"

definition b64char :: "nat \<Rightarrow> char" where
  "b64char i = b64chars ! (i mod 64)"

text \<open>\<^verbatim>\<open>base64.b64encode\<close>: three bytes give four characters; a last group of one or two
  bytes is padded with \<open>=\<close>.\<close>

fun b64encode :: "byte list \<Rightarrow> string" where
  "b64encode [] = []"
| "b64encode [a] =
     (let n = unat a * 65536
      in [b64char (n div 262144), b64char (n div 4096), CHR ''='', CHR ''=''])"
| "b64encode [a, b] =
     (let n = unat a * 65536 + unat b * 256
      in [b64char (n div 262144), b64char (n div 4096), b64char (n div 64), CHR ''=''])"
| "b64encode (a # b # c # rest) =
     (let n = unat a * 65536 + unat b * 256 + unat c
      in [b64char (n div 262144), b64char (n div 4096), b64char (n div 64), b64char n]
         @ b64encode rest)"

text \<open>
  \<^verbatim>\<open>base64.encodebytes\<close>, which \<^verbatim>\<open>email.encoders.encode_base64\<close> applies to the payload:
  \<^verbatim>\<open>
  for i in range(0, len(s), MAXBINSIZE):      # MAXBINSIZE = 57
      chunk = s[i : i + MAXBINSIZE]
      pieces.append(binascii.b2a_base64(chunk))   # base64 of the chunk, then a newline
  return b"".join(pieces)
  \<close>
\<close>

function encodebytes :: "byte list \<Rightarrow> string" where
  "encodebytes s =
     (if s = [] then []
      else b64encode (take 57 s) @ [CHR 0x0A] @ encodebytes (drop 57 s))"
  by pat_completeness auto
termination
  by (relation "measure length") auto

declare encodebytes.simps [simp del]

text \<open>
  The decoder is not part of the repository: it is what a reader of the message applies
  to an attachment part. It follows \<^verbatim>\<open>base64.b64decode\<close>: characters outside the
  alphabet (the line breaks) are dropped, then every four characters give up to three
  bytes. \<open>None\<close> stands for the decoder's error on a malformed text.
\<close>

fun b64index_in :: "string \<Rightarrow> char \<Rightarrow> nat option" where
  "b64index_in [] c = None"
| "b64index_in (x # xs) c =
     (if x = c then Some 0 else map_option Suc (b64index_in xs c))"

definition b64index :: "char \<Rightarrow> nat option" where
  "b64index c = b64index_in b64chars c"

fun b64decode_quads :: "string \<Rightarrow> byte list option" where
  "b64decode_quads [] = Some []"
| "b64decode_quads (c1 # c2 # c3 # c4 # rest) =
     (case (b64index c1, b64index c2) of
        (Some i1, Some i2) \<Rightarrow>
          (if c3 = CHR ''='' \<and> c4 = CHR ''='' then
             (if rest = [] then Some [of_nat ((i1 * 64 + i2) div 16)] else None)
           else
             (case b64index c3 of
                None \<Rightarrow> None
              | Some i3 \<Rightarrow>
                  (if c4 = CHR ''='' then
                     (if rest = [] then
                        (let n = (i1 * 64 + i2) * 64 + i3
                         in Some [of_nat (n div 1024), of_nat (n div 4)])
                      else None)
                   else
                     (case b64index c4 of
                        None \<Rightarrow> None
                      | Some i4 \<Rightarrow>
                          (let n = ((i1 * 64 + i2) * 64 + i3) * 64 + i4
                           in map_option
                                (\<lambda>bs. of_nat (n div 65536) # of_nat (n div 256) # of_nat n # bs)
                                (b64decode_quads rest))))))
      | _ \<Rightarrow> None)"
| "b64decode_quads _ = None"

definition b64decode :: "string \<Rightarrow> byte list option" where
  "b64decode s = b64decode_quads (filter (\<lambda>c. c \<in> set b64chars \<or> c = CHR ''='') s)"

section \<open>The MIME builder\<close>

text \<open>
  The objects of \<^verbatim>\<open>email.mime\<close>. A value of \<open>mime\<close> is the object tree that
  \<^verbatim>\<open>as_string()\<close> flattens; the flattening itself (line folding, the boundary string, which
  the library draws at random) is not modelled: it is a parameter of \<open>build_message\<close>. Each constructor carries the arguments of
  the Python constructor; \<open>hdrs\<close> are the header fields appended to the object after its
  construction, in order. The fields the constructors write themselves (Content-Type from
  the type and subtype, MIME-Version) come before them in the document.
\<close>

datatype mime =
    MIMEText string string "header list"
  | MIMEMultipart string "header list" "mime list"
  | MIMEBase string string "header list" string

fun hdrs :: "mime \<Rightarrow> header list" where
  "hdrs (MIMEText txt sub hs) = hs"
| "hdrs (MIMEMultipart sub hs ps) = hs"
| "hdrs (MIMEBase mt sub hs p) = hs"

fun parts :: "mime \<Rightarrow> mime list" where
  "parts (MIMEMultipart sub hs ps) = ps"
| "parts _ = []"

fun is_multipart :: "mime \<Rightarrow> bool" where
  "is_multipart (MIMEMultipart sub hs ps) = True"
| "is_multipart _ = False"

text \<open>The payload of an object that is not a container.\<close>

fun payload :: "mime \<Rightarrow> string" where
  "payload (MIMEText txt sub hs) = txt"
| "payload (MIMEMultipart sub hs ps) = []"
| "payload (MIMEBase mt sub hs p) = p"

text \<open>The content type of an object, as (maintype, subtype).\<close>

fun ctype :: "mime \<Rightarrow> string \<times> string" where
  "ctype (MIMEText txt sub hs) = (''text'', sub)"
| "ctype (MIMEMultipart sub hs ps) = (''multipart'', sub)"
| "ctype (MIMEBase mt sub hs p) = (mt, sub)"

text \<open>
  \<^verbatim>\<open>msg[key] = value\<close> is \<^verbatim>\<open>Message.__setitem__\<close>. The MIME classes are created with the
  \<^verbatim>\<open>compat32\<close> policy, under which it appends the field to the message's fields and
  neither replaces nor deletes a field of the same name.
\<close>

fun setitem :: "string \<Rightarrow> string \<Rightarrow> mime \<Rightarrow> mime" where
  "setitem k v (MIMEText txt sub hs) = MIMEText txt sub (hs @ [(k, v)])"
| "setitem k v (MIMEMultipart sub hs ps) = MIMEMultipart sub (hs @ [(k, v)]) ps"
| "setitem k v (MIMEBase mt sub hs p) = MIMEBase mt sub (hs @ [(k, v)]) p"

text \<open>\<^verbatim>\<open>msg.attach(part)\<close>, called on multipart objects only.\<close>

fun attach :: "mime \<Rightarrow> mime \<Rightarrow> mime" where
  "attach part (MIMEMultipart sub hs ps) = MIMEMultipart sub hs (ps @ [part])"
| "attach part m = m"

text \<open>
  The body of the loop over the attachments:
  \<^verbatim>\<open>
  part = MIMEBase(*att.content_type.split("/", 1))
  part.set_payload(att.content)
  encoders.encode_base64(part)
  part.add_header("Content-Disposition", f"attachment; filename={att.filename}")
  \<close>
  \<^verbatim>\<open>MIMEBase\<close> has two positional parameters, so a content type without \<open>/\<close> raises
  \<^verbatim>\<open>TypeError\<close>. \<^verbatim>\<open>encode_base64\<close> replaces the payload by \<^verbatim>\<open>encodebytes\<close> of it and
  sets Content-Transfer-Encoding.
\<close>

definition attachment_part :: "attachment \<Rightarrow> exn + mime" where
  "attachment_part att =
     (case split1 CHR ''/'' (content_type att) of
        [mt, sub] \<Rightarrow>
          Inr (setitem ''Content-Disposition'' (''attachment; filename='' @ filename att)
                (setitem ''Content-Transfer-Encoding'' ''base64''
                  (MIMEBase mt sub [] (encodebytes (content att)))))
      | _ \<Rightarrow> Inl TypeError)"

fun attach_all :: "attachment list \<Rightarrow> mime \<Rightarrow> exn + mime" where
  "attach_all [] msg = Inr msg"
| "attach_all (att # atts) msg =
     (case attachment_part att of
        Inl e \<Rightarrow> Inl e
      | Inr part \<Rightarrow> attach_all atts (attach part msg))"

text \<open>The header fields \<^verbatim>\<open>_build_message\<close> assigns before the custom ones.\<close>

definition standard_headers :: "smtp_config \<Rightarrow> email \<Rightarrow> header list" where
  "standard_headers cfg e =
     [(''Subject'', subject e),
      (''From'', if from_addr e \<noteq> [] then from_addr e else username cfg),
      (''To'', join '', '' (to e))]
     @ (if cc e \<noteq> [] then [(''Cc'', join '', '' (cc e))] else [])
     @ (if reply_to e \<noteq> [] then [(''Reply-To'', reply_to e)] else [])"

text \<open>
  \<^verbatim>\<open>SMTPClient._build_message\<close>, lines 114 to 141: the object that is built, before
  \<^verbatim>\<open>as_string()\<close> is called on it.
\<close>

definition message_object :: "smtp_config \<Rightarrow> email \<Rightarrow> exn + mime" where
  "message_object cfg e =
     (let msg = (if attachments e \<noteq> [] \<or> html e \<noteq> []
                 then MIMEMultipart (if html e \<noteq> [] then ''alternative'' else ''mixed'') [] []
                 else MIMEText (body e) ''plain'' []);
          msg = setitem ''Subject'' (subject e) msg;
          msg = setitem ''From'' (if from_addr e \<noteq> [] then from_addr e else username cfg) msg;
          msg = setitem ''To'' (join '', '' (to e)) msg;
          msg = (if cc e \<noteq> [] then setitem ''Cc'' (join '', '' (cc e)) msg else msg);
          msg = (if reply_to e \<noteq> [] then setitem ''Reply-To'' (reply_to e) msg else msg);
          msg = fold (\<lambda>(k, v). setitem k v) (headers e) msg
      in if is_multipart msg then
           (let msg = (if body e \<noteq> [] then attach (MIMEText (body e) ''plain'' []) msg else msg);
                msg = (if html e \<noteq> [] then attach (MIMEText (html e) ''html'' []) msg else msg)
            in attach_all (attachments e) msg)
         else Inr msg)"

text \<open>
  \<^verbatim>\<open>SMTPClient._build_message\<close>: the object is built, then \<^verbatim>\<open>return msg.as_string()\<close>.
  The library's serializer is the parameter \<open>as_string\<close>: it yields the document or it
  raises, for example \<^verbatim>\<open>HeaderParseError\<close> on a header value that holds a line break
  followed by a header field. What it raises leaves \<^verbatim>\<open>_build_message\<close> as it is.
\<close>

definition build_message :: "(mime \<Rightarrow> exn + 'd) \<Rightarrow> smtp_config \<Rightarrow> email \<Rightarrow> exn + 'd" where
  "build_message as_string cfg e =
     (case message_object cfg e of
        Inl ex \<Rightarrow> Inl ex
      | Inr msg \<Rightarrow> as_string msg)"

section \<open>The session\<close>

subsection \<open>Outcomes and the transport\<close>

text \<open>
  A call returns a value, raises, or never returns. The last happens in one place: the
  \<^verbatim>\<open>while True\<close> loop of \<^verbatim>\<open>_read_response\<close>.
\<close>

datatype 'a outcome = Returns 'a | Raises exn | Hangs

fun and_then ::
  "'a outcome \<times> 's \<Rightarrow> ('a \<Rightarrow> 's \<Rightarrow> 'b outcome \<times> 's) \<Rightarrow> 'b outcome \<times> 's" where
  "and_then (Returns a, s) f = f a s"
| "and_then (Raises e, s) f = (Raises e, s)"
| "and_then (Hangs, s) f = (Hangs, s)"

text \<open>
  What one call of \<^verbatim>\<open>self._file.readline().decode("utf-8")\<close> does: it yields the text of
  the next line, or it raises (a timeout, a reset connection, bytes that are not UTF-8).
  When the events have run out the peer has closed the connection, and \<^verbatim>\<open>readline()\<close>
  returns \<^verbatim>\<open>b""\<close> on every further call.
\<close>

datatype rd_event = Line string | Fails exn

text \<open>What \<^verbatim>\<open>sendall\<close> is given: the bytes of a command line, or of a serialized document
  (\<^verbatim>\<open>message.encode()\<close>). The type \<open>'d\<close> is that of the documents \<open>as_string\<close> yields.\<close>

datatype 'd wire = Bytes string | Document 'd

text \<open>
  \<^verbatim>\<open>SMTPClient\<close> together with the network it talks to.
  \<^item> \<open>sock\<close> is \<^verbatim>\<open>self._socket\<close>: \<open>None\<close>, or a socket object with the number of times
    \<^verbatim>\<open>close()\<close> has been called on it;
  \<^item> \<open>rfile\<close> tells whether \<^verbatim>\<open>self._file\<close> has been set; the client never closes this
    reader, so a call of \<^verbatim>\<open>close()\<close> on the socket is all the releasing it ever does;
  \<^item> \<open>rx\<close> are the reads to come; \<open>tx\<close> tells for the writes to come whether each succeeds
    (when it has run out, every write succeeds); \<open>connect_ok\<close> and \<open>tls_ok\<close> tell whether
    the TCP connection and the TLS handshake succeed;
  \<^item> \<open>sent\<close> is what \<^verbatim>\<open>sendall\<close> has written so far.
\<close>

record 'd client =
  config :: smtp_config
  sock :: "nat option"
  rfile :: bool
  rx :: "rd_event list"
  tx :: "bool list"
  connect_ok :: bool
  tls_ok :: bool
  sent :: "'d wire list"

text \<open>\<^verbatim>\<open>SMTPClient(config)\<close>, facing a given network.\<close>

definition new_client ::
  "smtp_config \<Rightarrow> rd_event list \<Rightarrow> bool list \<Rightarrow> bool \<Rightarrow> bool \<Rightarrow> 'd client" where
  "new_client cfg evs wr cok tok =
     \<lparr>config = cfg, sock = None, rfile = False, rx = evs, tx = wr,
      connect_ok = cok, tls_ok = tok, sent = []\<rparr>"

text \<open>\<^verbatim>\<open>self._socket.sendall(data)\<close>\<close>

definition sendall :: "'d wire \<Rightarrow> 'd client \<Rightarrow> unit outcome \<times> 'd client" where
  "sendall data s =
     (case sock s of
        None \<Rightarrow> (Raises AttributeError, s)
      | Some n \<Rightarrow>
          (case tx s of
             [] \<Rightarrow> (Returns (), s\<lparr>sent := sent s @ [data]\<rparr>)
           | ok # wr \<Rightarrow>
               (if ok then (Returns (), s\<lparr>tx := wr, sent := sent s @ [data]\<rparr>)
                else (Raises OSError, s\<lparr>tx := wr\<rparr>))))"

subsection \<open>Reading a response\<close>

text \<open>\<^verbatim>\<open>line.rstrip("\r\n")\<close>\<close>

definition rstrip_crlf :: "string \<Rightarrow> string" where
  "rstrip_crlf s = rev (dropWhile (\<lambda>c. c = CHR 0x0D \<or> c = CHR 0x0A) (rev s))"

text \<open>The test that ends the loop: \<^verbatim>\<open>len(line) >= 4 and line[3] == " "\<close>\<close>

definition is_final :: "string \<Rightarrow> bool" where
  "is_final line \<longleftrightarrow> length line \<ge> 4 \<and> line ! 3 = CHR '' ''"

text \<open>
  \<^verbatim>\<open>int(s)\<close> on a string: white space around the number is dropped, a sign may come
  first, and the digits may have single underscores between them. \<open>None\<close> is
  \<^verbatim>\<open>ValueError\<close>. A \<open>char\<close> is a code point below 256.
\<close>

definition py_isspace :: "char \<Rightarrow> bool" where
  "py_isspace c \<longleftrightarrow>
     c \<in> set [CHR 0x09, CHR 0x0A, CHR 0x0B, CHR 0x0C, CHR 0x0D, CHR '' '', CHR 0x85, CHR 0xA0]"

definition is_digit :: "char \<Rightarrow> bool" where
  "is_digit c \<longleftrightarrow> 48 \<le> (of_char c :: nat) \<and> (of_char c :: nat) \<le> 57"

definition digit_of :: "char \<Rightarrow> nat" where
  "digit_of c = of_char c - 48"

fun digits_value :: "nat \<Rightarrow> string \<Rightarrow> nat option" where
  "digits_value acc [] = Some acc"
| "digits_value acc [c] = (if is_digit c then Some (acc * 10 + digit_of c) else None)"
| "digits_value acc (c # d # ds) =
     (if is_digit c then digits_value (acc * 10 + digit_of c) (d # ds)
      else if c = CHR ''_'' \<and> is_digit d then digits_value (acc * 10 + digit_of d) ds
      else None)"

definition py_int :: "string \<Rightarrow> int option" where
  "py_int s =
     (let t = rev (dropWhile py_isspace (rev (dropWhile py_isspace s)));
          neg = (t \<noteq> [] \<and> hd t = CHR ''-'');
          u = (if t \<noteq> [] \<and> (hd t = CHR ''-'' \<or> hd t = CHR ''+'') then tl t else t)
      in case u of
           [] \<Rightarrow> None
         | d # ds \<Rightarrow>
             (if is_digit d
              then map_option (\<lambda>n. if neg then - int n else int n) (digits_value (digit_of d) ds)
              else None))"

text \<open>
  The loop of \<^verbatim>\<open>_read_response\<close>, over the reads to come:
  \<^verbatim>\<open>
  while True:
      line = self._file.readline().decode("utf-8").rstrip("\r\n")
      lines.append(line)
      if len(line) >= 4 and line[3] == " ":
          break
  \<close>
  At the end of the input every further line is empty, so the loop never ends.
\<close>

fun read_lines :: "string list \<Rightarrow> rd_event list \<Rightarrow> string list outcome \<times> rd_event list" where
  "read_lines lines [] = (Hangs, [])"
| "read_lines lines (Fails e # evs) = (Raises e, evs)"
| "read_lines lines (Line raw # evs) =
     (let line = rstrip_crlf raw; lines = lines @ [line]
      in if is_final line then (Returns lines, evs) else read_lines lines evs)"

text \<open>\<^verbatim>\<open>SMTPClient._read_response\<close>\<close>

definition read_response :: "'d client \<Rightarrow> (int \<times> string) outcome \<times> 'd client" where
  "read_response s =
     (if \<not> rfile s then (Raises AttributeError, s)
      else
        (case read_lines [] (rx s) of
           (Returns lines, evs) \<Rightarrow>
             (case py_int (take 3 (last lines)) of
                None \<Rightarrow> (Raises ValueError, s\<lparr>rx := evs\<rparr>)
              | Some code \<Rightarrow> (Returns (code, join [CHR 0x0A] lines), s\<lparr>rx := evs\<rparr>))
         | (Raises e, evs) \<Rightarrow> (Raises e, s\<lparr>rx := evs\<rparr>)
         | (Hangs, evs) \<Rightarrow> (Hangs, s\<lparr>rx := evs\<rparr>)))"

text \<open>\<^verbatim>\<open>SMTPClient._command\<close>\<close>

definition command :: "string \<Rightarrow> 'd client \<Rightarrow> (int \<times> string) outcome \<times> 'd client" where
  "command cmd s =
     and_then (sendall (Bytes (cmd @ [CHR 0x0D, CHR 0x0A])) s) (\<lambda>_ s. read_response s)"

subsection \<open>Replies of the server\<close>

text \<open>
  These describe the network in the statements below; they are not functions of the
  client. A reply is given by the lines the server sends for it: every line but the last
  is not final, and the last one is. Its code is what \<^verbatim>\<open>int\<close> makes of the first three
  characters of the last line, and its text is the lines joined by newlines.
\<close>

definition reply_lines :: "string list \<Rightarrow> string \<Rightarrow> bool" where
  "reply_lines pre t \<longleftrightarrow>
     (\<forall>l \<in> set pre. \<not> is_final (rstrip_crlf l)) \<and> is_final (rstrip_crlf t)"

definition reply_code :: "string \<Rightarrow> int option" where
  "reply_code t = py_int (take 3 (rstrip_crlf t))"

definition reply_text :: "string list \<Rightarrow> string \<Rightarrow> string" where
  "reply_text pre t = join [CHR 0x0A] (map rstrip_crlf (pre @ [t]))"

definition reply_events :: "string list \<times> string \<Rightarrow> rd_event list" where
  "reply_events r = map Line (fst r @ [snd r])"

text \<open>The network lets every write to come succeed.\<close>

definition writes_ok :: "'d client \<Rightarrow> bool" where
  "writes_ok s \<longleftrightarrow> (\<forall>ok \<in> set (tx s). ok)"

subsection \<open>Connecting, sending, closing\<close>

text \<open>\<^verbatim>\<open>str.encode()\<close>, the UTF-8 encoding, on code points below 256.\<close>

definition encode_utf8 :: "string \<Rightarrow> byte list" where
  "encode_utf8 s =
     concat (map (\<lambda>c. let n = (of_char c :: nat)
                       in if n < 128 then [of_nat n]
                          else [of_nat (192 + n div 64), of_nat (128 + n mod 64)]) s)"

text \<open>
  \<^verbatim>\<open>SMTPClient.connect\<close>. The socket is created and assigned first; the greeting is
  read and the commands are sent without a look at the status codes. Wrapping the socket
  for TLS puts a new socket object and a new reader in place.
\<close>

definition starttls :: "'d client \<Rightarrow> unit outcome \<times> 'd client" where
  "starttls s =
     and_then (command ''STARTTLS'' s) (\<lambda>_ s.
       if \<not> tls_ok s then (Raises OSError, s)
       else and_then (command ''EHLO localhost'' (s\<lparr>sock := Some 0, rfile := True\<rparr>))
              (\<lambda>_ s. (Returns (), s)))"

definition auth_login :: "'d client \<Rightarrow> unit outcome \<times> 'd client" where
  "auth_login s =
     and_then (command ''AUTH LOGIN'' s) (\<lambda>_ s.
     and_then (command (b64encode (encode_utf8 (username (config s)))) s) (\<lambda>_ s.
     and_then (command (b64encode (encode_utf8 (password (config s)))) s) (\<lambda>_ s.
       (Returns (), s))))"

definition connect :: "'d client \<Rightarrow> unit outcome \<times> 'd client" where
  "connect s =
     (let s = s\<lparr>sock := Some 0\<rparr>
      in if \<not> connect_ok s then (Raises OSError, s)
         else
           and_then (read_response (s\<lparr>rfile := True\<rparr>)) (\<lambda>_ s.
           and_then (command ''EHLO localhost'' s) (\<lambda>_ s.
           and_then (if use_tls (config s) then starttls s else (Returns (), s)) (\<lambda>_ s.
           and_then (if username (config s) \<noteq> [] \<and> password (config s) \<noteq> []
                     then auth_login s else (Returns (), s)) (\<lambda>_ s.
             (Returns (), s))))))"

text \<open>
  The loop over the recipients in \<^verbatim>\<open>send\<close>:
  \<^verbatim>\<open>
  for recipient in recipients:
      code, msg = self._command(f"RCPT TO:<{recipient}>")
      if code not in (250, 251):
          raise SMTPError(f"RCPT TO failed for {recipient}: {msg}")
  \<close>
\<close>

fun rcpt_loop :: "string list \<Rightarrow> 'd client \<Rightarrow> unit outcome \<times> 'd client" where
  "rcpt_loop [] s = (Returns (), s)"
| "rcpt_loop (recipient # recipients) s =
     and_then (command (''RCPT TO:<'' @ recipient @ ''>'') s) (\<lambda>(code, msg) s.
       if code \<noteq> 250 \<and> code \<noteq> 251
       then (Raises (SMTPError (''RCPT TO failed for '' @ recipient @ '': '' @ msg)), s)
       else rcpt_loop recipients s)"

text \<open>\<^verbatim>\<open>SMTPClient.send\<close>, with the library's serializer as in \<open>build_message\<close>.\<close>

definition send ::
  "(mime \<Rightarrow> exn + 'd) \<Rightarrow> email \<Rightarrow> 'd client \<Rightarrow> bool outcome \<times> 'd client" where
  "send as_string e s =
     (let from = (if from_addr e \<noteq> [] then from_addr e else username (config s));
          recipients = to e @ cc e @ bcc e
      in and_then (command (''MAIL FROM:<'' @ from @ ''>'') s) (\<lambda>(code, msg) s.
           if code \<noteq> 250 then (Raises (SMTPError (''MAIL FROM failed: '' @ msg)), s)
           else
             and_then (rcpt_loop recipients s) (\<lambda>_ s.
             and_then (command ''DATA'' s) (\<lambda>(code, msg) s.
               if code \<noteq> 354 then (Raises (SMTPError (''DATA failed: '' @ msg)), s)
               else
                 (case build_message as_string (config s) e of
                    Inl ex \<Rightarrow> (Raises ex, s)
                  | Inr message \<Rightarrow>
                      and_then (sendall (Document message) s) (\<lambda>_ s.
                      and_then (command ''.'' s) (\<lambda>(code, msg) s.
                        if code \<noteq> 250 then (Raises (SMTPError (''Send failed: '' @ msg)), s)
                        else (Returns True, s))))))))"

text \<open>
  The statements of \<^verbatim>\<open>send\<close> after the loop, lines 158 to 168, under a name of their own
  for the statements about them; lemma \<open>send_data_phase\<close> shows that \<^verbatim>\<open>send\<close> is the MAIL
  FROM command, the loop, and these.
\<close>

definition data_phase ::
  "(mime \<Rightarrow> exn + 'd) \<Rightarrow> email \<Rightarrow> 'd client \<Rightarrow> bool outcome \<times> 'd client" where
  "data_phase as_string e s =
     and_then (command ''DATA'' s) (\<lambda>(code, msg) s.
       if code \<noteq> 354 then (Raises (SMTPError (''DATA failed: '' @ msg)), s)
       else
         (case build_message as_string (config s) e of
            Inl ex \<Rightarrow> (Raises ex, s)
          | Inr message \<Rightarrow>
              and_then (sendall (Document message) s) (\<lambda>_ s.
              and_then (command ''.'' s) (\<lambda>(code, msg) s.
                if code \<noteq> 250 then (Raises (SMTPError (''Send failed: '' @ msg)), s)
                else (Returns True, s)))))"

text \<open>
  \<^verbatim>\<open>SMTPClient.close\<close>:
  \<^verbatim>\<open>
  try:
      self._command("QUIT")
  except Exception:
      pass
  if self._socket:
      self._socket.close()
  \<close>
\<close>

definition close :: "'d client \<Rightarrow> unit outcome \<times> 'd client" where
  "close s =
     (case command ''QUIT'' s of
        (Hangs, s) \<Rightarrow> (Hangs, s)
      | (_, s) \<Rightarrow>
          (case sock s of
             None \<Rightarrow> (Returns (), s)
           | Some n \<Rightarrow> (Returns (), s\<lparr>sock := Some (Suc n)\<rparr>)))"

text \<open>
  The module's \<^verbatim>\<open>send(config, mail)\<close>, facing a given network:
  \<^verbatim>\<open>
  with SMTPClient(config) as client:
      return client.send(mail)
  \<close>
  \<^verbatim>\<open>__enter__\<close> is \<^verbatim>\<open>connect\<close> and \<^verbatim>\<open>__exit__\<close> is \<^verbatim>\<open>close\<close>. A \<^verbatim>\<open>with\<close> statement runs
  \<^verbatim>\<open>__exit__\<close> once \<^verbatim>\<open>__enter__\<close> has returned, whether the body returns or raises; it
  does not run it when \<^verbatim>\<open>__enter__\<close> itself raises.
\<close>

definition module_send ::
  "(mime \<Rightarrow> exn + 'd) \<Rightarrow> smtp_config \<Rightarrow> email \<Rightarrow> rd_event list \<Rightarrow> bool list \<Rightarrow> bool \<Rightarrow> bool
   \<Rightarrow> bool outcome \<times> 'd client" where
  "module_send as_string cfg mail evs wr cok tok =
     (case connect (new_client cfg evs wr cok tok) of
        (Raises e, s) \<Rightarrow> (Raises e, s)
      | (Hangs, s) \<Rightarrow> (Hangs, s)
      | (Returns _, s) \<Rightarrow>
          (case send as_string mail s of
             (Hangs, s) \<Rightarrow> (Hangs, s)
           | (result, s) \<Rightarrow>
               (case close s of
                  (Returns _, s) \<Rightarrow> (result, s)
                | (Raises e, s) \<Rightarrow> (Raises e, s)
                | (Hangs, s) \<Rightarrow> (Hangs, s))))"

subsection \<open>The values of \<^verbatim>\<open>example_usage\<close>\<close>

definition example_config :: smtp_config where
  "example_config =
     \<lparr>host = ''smtp.example.com'', port = 587, username = ''user@example.com'',
      password = ''password'', use_tls = True\<rparr>"

definition example_mail :: email where
  "example_mail =
     \<lparr>to = [''recipient@example.com''], subject = ''Test Email'',
      body = ''Hello from RoadSMTP!'', html = ''<h1>Hello from RoadSMTP!</h1>'',
      from_addr = [], cc = [], bcc = [], reply_to = [], attachments = [], headers = []\<rparr>"

text \<open>The client of \<^verbatim>\<open>example_usage\<close> once \<^verbatim>\<open>connect()\<close> has returned, with the reads to come.
  In the examples a document is written as the object it serializes (\<open>as_string\<close> is \<open>Inr\<close>).\<close>

definition example_client :: "rd_event list \<Rightarrow> mime client" where
  "example_client evs =
     (new_client example_config evs [] True True)\<lparr>sock := Some 0, rfile := True\<rparr>"

definition example_attachment :: attachment where
  "example_attachment =
     \<lparr>filename = ''a.bin'', content = [1, 2, 3], content_type = ''application/octet-stream''\<rparr>"


section \<open>Base64 decoding undoes the encoding\<close>

lemma b64index_in_nth:
  "distinct xs \<Longrightarrow> i < length xs \<Longrightarrow> b64index_in xs (xs ! i) = Some i"
proof (induction xs arbitrary: i)
  case Nil
  then show ?case by simp
next
  case (Cons x xs)
  show ?case
  proof (cases i)
    case 0
    then show ?thesis by simp
  next
    case (Suc j)
    with Cons.prems have "xs ! j \<in> set xs" "x \<notin> set xs"
      by simp_all
    then have "x \<noteq> xs ! j"
      by blast
    with Suc Cons show ?thesis
      by simp
  qed
qed

lemma distinct_b64chars: "distinct b64chars"
  by (simp add: b64chars_def)

lemma length_b64chars: "length b64chars = 64"
  by (simp add: b64chars_def)

lemma b64index_b64char: "b64index (b64char i) = Some (i mod 64)"
  unfolding b64index_def b64char_def
  by (rule b64index_in_nth [OF distinct_b64chars]) (simp add: length_b64chars)

lemma b64char_in: "b64char i \<in> set b64chars"
  unfolding b64char_def by (rule nth_mem) (simp add: length_b64chars)

lemma pad_notin: "CHR ''='' \<notin> set b64chars"
  by (simp add: b64chars_def)

lemma newline_notin: "CHR 0x0A \<notin> set b64chars"
  by (simp add: b64chars_def)

lemma b64char_not_pad: "b64char i \<noteq> CHR ''=''"
  using b64char_in [of i] pad_notin by metis

lemma quad3:
  "b64decode_quads (b64char k1 # b64char k2 # b64char k3 # b64char k4 # rest) =
     map_option
       (\<lambda>bs. of_nat ((((k1 mod 64 * 64 + k2 mod 64) * 64 + k3 mod 64) * 64 + k4 mod 64) div 65536)
            # of_nat ((((k1 mod 64 * 64 + k2 mod 64) * 64 + k3 mod 64) * 64 + k4 mod 64) div 256)
            # of_nat (((k1 mod 64 * 64 + k2 mod 64) * 64 + k3 mod 64) * 64 + k4 mod 64) # bs)
       (b64decode_quads rest)"
  by (simp add: b64index_b64char b64char_not_pad Let_def)

lemma quad2:
  "b64decode_quads [b64char k1, b64char k2, b64char k3, CHR ''=''] =
     Some [of_nat (((k1 mod 64 * 64 + k2 mod 64) * 64 + k3 mod 64) div 1024),
           of_nat (((k1 mod 64 * 64 + k2 mod 64) * 64 + k3 mod 64) div 4)]"
  by (simp add: b64index_b64char b64char_not_pad Let_def)

lemma quad1:
  "b64decode_quads [b64char k1, b64char k2, CHR ''='', CHR ''=''] =
     Some [of_nat ((k1 mod 64 * 64 + k2 mod 64) div 16)]"
  by (simp add: b64index_b64char b64char_not_pad Let_def)

lemma unat_byte: "unat (a :: byte) < 256"
  using unsigned_less [of a] by simp

lemma byte_of_nat:
  assumes "n mod 256 = unat (w :: byte)"
  shows "of_nat n = w"
proof -
  have "(of_nat n :: byte) = of_nat (n mod 256)"
    by (simp add: word_of_nat_eq_iff take_bit_eq_mod)
  also have "\<dots> = of_nat (unat w)"
    using assms by simp
  also have "\<dots> = w"
    by simp
  finally show ?thesis .
qed

lemma recompose12:
  fixes m :: nat
  shows "m div 262144 mod 64 * 64 + m div 4096 mod 64 = m div 4096 mod 4096"
proof -
  have "m div 4096 mod 4096 = 64 * (m div 4096 div 64 mod 64) + m div 4096 mod 64"
    using mod_mult2_eq [of "m div 4096" 64 64] by simp
  moreover have "m div 4096 div 64 = m div 262144"
    by (simp add: div_mult2_eq [symmetric])
  ultimately show ?thesis
    by simp
qed

lemma recompose18:
  fixes m :: nat
  shows "(m div 262144 mod 64 * 64 + m div 4096 mod 64) * 64 + m div 64 mod 64
         = m div 64 mod 262144"
proof -
  have "m div 64 mod 262144 = 64 * (m div 64 div 64 mod 4096) + m div 64 mod 64"
    using mod_mult2_eq [of "m div 64" 64 4096] by simp
  moreover have "m div 64 div 64 = m div 4096"
    by (simp add: div_mult2_eq [symmetric])
  ultimately show ?thesis
    by (simp add: recompose12)
qed

lemma recompose24:
  fixes m :: nat
  shows "((m div 262144 mod 64 * 64 + m div 4096 mod 64) * 64 + m div 64 mod 64) * 64 + m mod 64
         = m mod 16777216"
proof -
  have "((m div 262144 mod 64 * 64 + m div 4096 mod 64) * 64 + m div 64 mod 64) * 64 + m mod 64
        = 64 * (m div 64 mod 262144) + m mod 64"
    by (subst recompose18) simp
  also have "\<dots> = m mod (64 * 262144)"
    by (rule mod_mult2_eq [symmetric])
  finally show ?thesis
    by simp
qed

lemma split3:
  fixes x y z :: nat
  assumes "y < 256" "z < 256"
  shows "(x * 65536 + y * 256 + z) div 65536 = x"
    and "(x * 65536 + y * 256 + z) div 256 = x * 256 + y"
    and "(x * 65536 + y * 256 + z) mod 256 = z"
proof -
  have lo: "y * 256 + z < 65536"
    using assms by linarith
  have "x * 65536 + y * 256 + z = x * 65536 + (y * 256 + z)"
    by simp
  with lo show "(x * 65536 + y * 256 + z) div 65536 = x"
    by simp
  have e: "x * 65536 + y * 256 + z = (x * 256 + y) * 256 + z"
    by simp
  with assms(2) show "(x * 65536 + y * 256 + z) div 256 = x * 256 + y"
    by simp
  have "((x * 256 + y) * 256 + z) mod 256 = z mod 256"
    by (rule mod_mult_self3)
  with e assms(2) show "(x * 65536 + y * 256 + z) mod 256 = z"
    by (simp only: mod_less)
qed

lemma split2:
  fixes x y :: nat
  assumes "x < 256" "y < 256"
  shows "(x * 65536 + y * 256) div 64 mod 262144 = x * 1024 + y * 4"
    and "(x * 1024 + y * 4) div 1024 = x"
    and "(x * 1024 + y * 4) div 4 = x * 256 + y"
proof -
  have "x * 65536 + y * 256 = (x * 1024 + y * 4) * 64"
    by simp
  then have "(x * 65536 + y * 256) div 64 = x * 1024 + y * 4"
    by (metis nonzero_mult_div_cancel_right zero_neq_numeral)
  moreover have "x * 1024 + y * 4 < 262144"
    using assms by linarith
  ultimately show "(x * 65536 + y * 256) div 64 mod 262144 = x * 1024 + y * 4"
    by simp
  have "y * 4 < 1024"
    using assms by linarith
  then show "(x * 1024 + y * 4) div 1024 = x"
    by simp
  have "x * 1024 + y * 4 = (x * 256 + y) * 4"
    by simp
  then show "(x * 1024 + y * 4) div 4 = x * 256 + y"
    by (metis nonzero_mult_div_cancel_right zero_neq_numeral)
qed

lemma split1:
  fixes x :: nat
  assumes "x < 256"
  shows "(x * 65536) div 4096 mod 4096 = x * 16"
    and "(x * 16) div 16 = x"
proof -
  have "x * 65536 = (x * 16) * 4096"
    by simp
  then have "(x * 65536) div 4096 = x * 16"
    by (metis nonzero_mult_div_cancel_right zero_neq_numeral)
  moreover have "x * 16 < 4096"
    using assms by linarith
  ultimately show "(x * 65536) div 4096 mod 4096 = x * 16"
    by simp
  show "(x * 16) div 16 = x"
    by simp
qed

lemma b64decode_quads_b64encode: "b64decode_quads (b64encode bs) = Some bs"
proof (induction bs rule: b64encode.induct)
  case 1
  then show ?case by simp
next
  case (2 a)
  have "of_nat (unat a * 65536 div 4096 mod 4096 div 16) = a"
    using split1 [OF unat_byte [of a]] by (intro byte_of_nat) (simp add: unat_byte)
  then show ?case
    by (simp only: b64encode.simps Let_def quad1 recompose12)
next
  case (3 a b)
  have x: "of_nat ((unat a * 65536 + unat b * 256) div 64 mod 262144 div 1024) = a"
    using split2 [OF unat_byte [of a] unat_byte [of b]] by (intro byte_of_nat) (simp add: unat_byte)
  have y: "of_nat ((unat a * 65536 + unat b * 256) div 64 mod 262144 div 4) = b"
    using split2 [OF unat_byte [of a] unat_byte [of b]] by (intro byte_of_nat) (simp add: unat_byte)
  show ?case
    by (simp only: b64encode.simps Let_def quad2 recompose18 x y)
next
  case (4 a b c rest)
  let ?n = "unat a * 65536 + unat b * 256 + unat c"
  have n: "?n mod 16777216 = ?n"
    using unat_byte [of a] unat_byte [of b] unat_byte [of c] by simp
  have x: "of_nat (?n div 65536) = a"
    using split3 [OF unat_byte [of b] unat_byte [of c], of "unat a"]
    by (intro byte_of_nat) (simp add: unat_byte)
  have y: "of_nat (?n div 256) = b"
    using split3 [OF unat_byte [of b] unat_byte [of c], of "unat a"]
    by (intro byte_of_nat) (simp add: unat_byte)
  have z: "of_nat ?n = c"
    using split3 [OF unat_byte [of b] unat_byte [of c], of "unat a"]
    by (intro byte_of_nat) (simp add: unat_byte)
  show ?case
    by (simp only: b64encode.simps Let_def append_Cons append_Nil quad3 recompose24 n x y z "4.IH"
        option.map)
qed

lemma b64encode_chars: "c \<in> set (b64encode bs) \<Longrightarrow> c \<in> set b64chars \<or> c = CHR ''=''"
  by (induction bs rule: b64encode.induct) (auto simp: Let_def b64char_in)

lemma filter_b64encode:
  "filter (\<lambda>c. c \<in> set b64chars \<or> c = CHR ''='') (b64encode bs) = b64encode bs"
  using b64encode_chars by (intro filter_True) blast

lemma b64encode_append:
  "length xs mod 3 = 0 \<Longrightarrow> b64encode (xs @ ys) = b64encode xs @ b64encode ys"
  by (induction xs rule: b64encode.induct) (simp_all add: Let_def)

lemma b64encode_take_drop: "b64encode (take 57 s) @ b64encode (drop 57 s) = b64encode s"
proof (cases "57 \<le> length s")
  case True
  then have "length (take 57 s) mod 3 = 0"
    by simp
  from b64encode_append [OF this, of "drop 57 s"] show ?thesis
    by simp
next
  case False
  then show ?thesis by simp
qed

lemma filter_encodebytes:
  "filter (\<lambda>c. c \<in> set b64chars \<or> c = CHR ''='') (encodebytes s) = b64encode s"
proof (induction s rule: encodebytes.induct)
  case (1 s)
  show ?case
  proof (cases "s = []")
    case True
    then show ?thesis
      by (simp add: encodebytes.simps [of "[]"])
  next
    case False
    with 1 have "filter (\<lambda>c. c \<in> set b64chars \<or> c = CHR ''='') (encodebytes (drop 57 s))
                   = b64encode (drop 57 s)"
      by simp
    with False show ?thesis
      by (subst encodebytes.simps)
         (simp add: filter_b64encode newline_notin b64encode_take_drop)
  qed
qed

lemma b64decode_encodebytes: "b64decode (encodebytes s) = Some s"
  by (simp add: b64decode_def filter_encodebytes b64decode_quads_b64encode)

section \<open>Properties of the MIME builder\<close>

lemma fold_setitem_multipart:
  "fold (\<lambda>(k, v). setitem k v) kvs (MIMEMultipart sub hs ps) = MIMEMultipart sub (hs @ kvs) ps"
  by (induction kvs arbitrary: hs) auto

lemma fold_setitem_text:
  "fold (\<lambda>(k, v). setitem k v) kvs (MIMEText txt sub hs) = MIMEText txt sub (hs @ kvs)"
  by (induction kvs arbitrary: hs) auto

lemma attach_all_multipart:
  "attach_all atts (MIMEMultipart sub hs ps) = Inr d \<Longrightarrow>
   \<exists>aps. d = MIMEMultipart sub hs (ps @ aps) \<and>
         list_all2 (\<lambda>a p. attachment_part a = Inr p) atts aps"
proof (induction atts arbitrary: ps)
  case Nil
  then show ?case by simp
next
  case (Cons a atts)
  then obtain p where p: "attachment_part a = Inr p"
    by (auto split: sum.splits)
  with Cons.prems have "attach_all atts (MIMEMultipart sub hs (ps @ [p])) = Inr d"
    by simp
  from Cons.IH [OF this] obtain aps where
    "d = MIMEMultipart sub hs ((ps @ [p]) @ aps)"
    "list_all2 (\<lambda>a p. attachment_part a = Inr p) atts aps"
    by blast
  with p show ?case
    by (intro exI [of _ "p # aps"]) simp
qed

lemma message_object_multipart:
  "attachments e \<noteq> [] \<or> html e \<noteq> [] \<Longrightarrow>
   message_object cfg e =
     attach_all (attachments e)
       (MIMEMultipart (if html e \<noteq> [] then ''alternative'' else ''mixed'')
          (standard_headers cfg e @ headers e)
          ((if body e \<noteq> [] then [MIMEText (body e) ''plain'' []] else [])
           @ (if html e \<noteq> [] then [MIMEText (html e) ''html'' []] else [])))"
  by (simp add: message_object_def standard_headers_def fold_setitem_multipart Let_def)

lemma message_object_plain:
  "attachments e = [] \<Longrightarrow> html e = [] \<Longrightarrow>
   message_object cfg e = Inr (MIMEText (body e) ''plain'' (standard_headers cfg e @ headers e))"
  by (simp add: message_object_def standard_headers_def fold_setitem_text Let_def)

text \<open>What the builder decides about the top level, in every case in which it returns.\<close>

lemma message_object_ctype:
  "message_object cfg e = Inr d \<Longrightarrow>
   ctype d =
     (if html e \<noteq> [] then (''multipart'', ''alternative'')
      else if attachments e \<noteq> [] then (''multipart'', ''mixed'')
      else (''text'', ''plain''))"
  by (cases "attachments e \<noteq> [] \<or> html e \<noteq> []")
     (auto simp: message_object_multipart message_object_plain dest!: attach_all_multipart)

lemma encodebytes_example: "encodebytes [1, 2, 3] = ''AQID'' @ [CHR 0x0A]"
  by (simp add: encodebytes.simps [of "[1, 2, 3]"] encodebytes.simps [of "[]"]
      b64char_def b64chars_def)

lemma build_example_attachment:
  "message_object example_config (example_mail\<lparr>attachments := [example_attachment]\<rparr>)
   = Inr (MIMEMultipart ''alternative''
           [(''Subject'', ''Test Email''), (''From'', ''user@example.com''),
            (''To'', ''recipient@example.com'')]
           [MIMEText ''Hello from RoadSMTP!'' ''plain'' [],
            MIMEText ''<h1>Hello from RoadSMTP!</h1>'' ''html'' [],
            MIMEBase ''application'' ''octet-stream''
              [(''Content-Transfer-Encoding'', ''base64''),
               (''Content-Disposition'', ''attachment; filename=a.bin'')]
              (''AQID'' @ [CHR 0x0A])])"
  by (simp add: message_object_def example_config_def example_mail_def example_attachment_def
      attachment_part_def split1_def encodebytes_example)

text \<open>
  Claim C1. A message with an attachment is to be serialized as \<open>multipart/mixed\<close> whether
  or not it has an HTML body. The builder picks the subtype by
  \<^verbatim>\<open>"alternative" if email.html else "mixed"\<close>, so \<open>mixed\<close> is reached only by a message with
  attachments and no HTML body: the message of \<^verbatim>\<open>example_usage\<close> with one attachment added
  is built as \<open>multipart/alternative\<close>, the attachment being one of the alternatives.
\<close>

theorem build_message_html_attachment_alternative:
  "message_object example_config (example_mail\<lparr>attachments := [example_attachment]\<rparr>)
   = Inr (MIMEMultipart ''alternative''
           [(''Subject'', ''Test Email''), (''From'', ''user@example.com''),
            (''To'', ''recipient@example.com'')]
           [MIMEText ''Hello from RoadSMTP!'' ''plain'' [],
            MIMEText ''<h1>Hello from RoadSMTP!</h1>'' ''html'' [],
            MIMEBase ''application'' ''octet-stream''
              [(''Content-Transfer-Encoding'', ''base64''),
               (''Content-Disposition'', ''attachment; filename=a.bin'')]
              (''AQID'' @ [CHR 0x0A])])
   \<and> build_message as_string example_config (example_mail\<lparr>attachments := [example_attachment]\<rparr>)
   = as_string (MIMEMultipart ''alternative''
           [(''Subject'', ''Test Email''), (''From'', ''user@example.com''),
            (''To'', ''recipient@example.com'')]
           [MIMEText ''Hello from RoadSMTP!'' ''plain'' [],
            MIMEText ''<h1>Hello from RoadSMTP!</h1>'' ''html'' [],
            MIMEBase ''application'' ''octet-stream''
              [(''Content-Transfer-Encoding'', ''base64''),
               (''Content-Disposition'', ''attachment; filename=a.bin'')]
              (''AQID'' @ [CHR 0x0A])])"
  by (simp add: build_message_def build_example_attachment)

theorem build_message_html_attachment_alternative_witness:
  "attachments (example_mail\<lparr>attachments := [example_attachment]\<rparr>) \<noteq> [] \<and>
   map_sum id ctype
     (message_object example_config (example_mail\<lparr>attachments := [example_attachment]\<rparr>))
   = Inr (''multipart'', ''alternative'') \<and>
   map_sum id ctype
     (build_message Inr example_config (example_mail\<lparr>attachments := [example_attachment]\<rparr>))
   = Inr (''multipart'', ''alternative'')"
  using build_message_html_attachment_alternative [where as_string = Inr] by simp

text \<open>
  Claim C2, as stated: a custom header whose key is that of a standard header replaces the
  standard one. It does not: with the subject \<open>Test Email\<close> and the custom header
  \<open>Subject: Other\<close> the document has both fields.
\<close>

theorem custom_header_overwrites_counterexample:
  "message_object example_config
     (example_mail\<lparr>html := [], headers := [(''Subject'', ''Other'')]\<rparr>)
   = Inr (MIMEText ''Hello from RoadSMTP!'' ''plain''
           [(''Subject'', ''Test Email''), (''From'', ''user@example.com''),
            (''To'', ''recipient@example.com''), (''Subject'', ''Other'')])"
  by (simp add: message_object_def example_config_def example_mail_def)

text \<open>
  Claim C2, amended: the fields of the object built are the standard fields in the order
  of their assignment, followed by every entry of the custom headers in the mapping's
  order. Each assignment appends a field, so a custom header whose key is that of a
  standard header comes after it and the document, which is the serialization of this
  object, has both.
\<close>

theorem build_message_headers_appended:
  "message_object cfg e = Inr d \<Longrightarrow>
   hdrs d = standard_headers cfg e @ headers e \<and> build_message as_string cfg e = as_string d"
  by (cases "attachments e \<noteq> [] \<or> html e \<noteq> []")
     (auto simp: build_message_def message_object_multipart message_object_plain
       dest!: attach_all_multipart)

theorem build_message_headers_appended_witness:
  "message_object example_config (example_mail\<lparr>headers := [(''Subject'', ''Other'')]\<rparr>)
     = Inr (MIMEMultipart ''alternative''
             [(''Subject'', ''Test Email''), (''From'', ''user@example.com''),
              (''To'', ''recipient@example.com''), (''Subject'', ''Other'')]
             [MIMEText ''Hello from RoadSMTP!'' ''plain'' [],
              MIMEText ''<h1>Hello from RoadSMTP!</h1>'' ''html'' []])
   \<and> hdrs (MIMEMultipart ''alternative''
             [(''Subject'', ''Test Email''), (''From'', ''user@example.com''),
              (''To'', ''recipient@example.com''), (''Subject'', ''Other'')]
             [MIMEText ''Hello from RoadSMTP!'' ''plain'' [],
              MIMEText ''<h1>Hello from RoadSMTP!</h1>'' ''html'' []])
     = standard_headers example_config (example_mail\<lparr>headers := [(''Subject'', ''Other'')]\<rparr>)
       @ headers (example_mail\<lparr>headers := [(''Subject'', ''Other'')]\<rparr>)"
proof -
  have b: "message_object example_config (example_mail\<lparr>headers := [(''Subject'', ''Other'')]\<rparr>)
     = Inr (MIMEMultipart ''alternative''
             [(''Subject'', ''Test Email''), (''From'', ''user@example.com''),
              (''To'', ''recipient@example.com''), (''Subject'', ''Other'')]
             [MIMEText ''Hello from RoadSMTP!'' ''plain'' [],
              MIMEText ''<h1>Hello from RoadSMTP!</h1>'' ''html'' []])"
    by (simp add: message_object_def example_config_def example_mail_def)
  show ?thesis
    using b build_message_headers_appended [OF b, where as_string = Inr] by simp
qed

text \<open>
  Claim C8. For a message with a non-empty HTML body and no attachments the object built
  is a \<open>multipart/alternative\<close> container whose parts are the plain-text part, if the body
  is non-empty, and then the HTML part; and what \<^verbatim>\<open>_build_message\<close> gives is what
  \<^verbatim>\<open>as_string()\<close> makes of this container, be it the document or an error.
\<close>

theorem build_message_alternative:
  "html e \<noteq> [] \<Longrightarrow> attachments e = [] \<Longrightarrow>
   message_object cfg e =
     Inr (MIMEMultipart ''alternative'' (standard_headers cfg e @ headers e)
           ((if body e \<noteq> [] then [MIMEText (body e) ''plain'' []] else [])
            @ [MIMEText (html e) ''html'' []]))
   \<and> build_message as_string cfg e =
     as_string (MIMEMultipart ''alternative'' (standard_headers cfg e @ headers e)
           ((if body e \<noteq> [] then [MIMEText (body e) ''plain'' []] else [])
            @ [MIMEText (html e) ''html'' []]))"
  by (simp add: build_message_def message_object_multipart)

theorem build_message_alternative_witness:
  "html example_mail \<noteq> [] \<and> attachments example_mail = [] \<and>
   build_message Inr example_config example_mail =
     Inr (MIMEMultipart ''alternative''
           [(''Subject'', ''Test Email''), (''From'', ''user@example.com''),
            (''To'', ''recipient@example.com'')]
           [MIMEText ''Hello from RoadSMTP!'' ''plain'' [],
            MIMEText ''<h1>Hello from RoadSMTP!</h1>'' ''html'' []]) \<and>
   build_message (\<lambda>d. Inl HeaderParseError :: exn + mime) example_config example_mail =
     Inl HeaderParseError"
  using build_message_alternative [where e = example_mail and as_string = Inr and cfg = example_config]
    build_message_alternative [where e = example_mail and as_string = "\<lambda>d. Inl HeaderParseError"
      and cfg = example_config]
  by (simp add: example_mail_def example_config_def standard_headers_def)

lemma attachment_part_payload:
  "attachment_part a = Inr p \<Longrightarrow> b64decode (payload p) = Some (content a)"
  by (auto simp: attachment_part_def b64decode_encodebytes split: list.splits)

text \<open>
  Claim C9. In the object built for a message with attachments, the parts after the text
  parts are the attachment parts, one for each attachment in order, and decoding the
  base64 payload of each gives the content of its attachment. The document of
  \<^verbatim>\<open>_build_message\<close> is the serialization of this object.
\<close>

theorem attachment_payload_roundtrip:
  assumes "message_object cfg e = Inr d" "attachments e \<noteq> []"
  shows "(\<exists>aps. parts d =
            (if body e \<noteq> [] then [MIMEText (body e) ''plain'' []] else [])
            @ (if html e \<noteq> [] then [MIMEText (html e) ''html'' []] else []) @ aps
          \<and> list_all2 (\<lambda>a p. b64decode (payload p) = Some (content a)) (attachments e) aps)
         \<and> build_message as_string cfg e = as_string d"
proof -
  from assms have
    "attach_all (attachments e)
       (MIMEMultipart (if html e \<noteq> [] then ''alternative'' else ''mixed'')
          (standard_headers cfg e @ headers e)
          ((if body e \<noteq> [] then [MIMEText (body e) ''plain'' []] else [])
           @ (if html e \<noteq> [] then [MIMEText (html e) ''html'' []] else []))) = Inr d"
    by (simp add: message_object_multipart)
  from attach_all_multipart [OF this] obtain aps where
    d: "d = MIMEMultipart (if html e \<noteq> [] then ''alternative'' else ''mixed'')
          (standard_headers cfg e @ headers e)
          (((if body e \<noteq> [] then [MIMEText (body e) ''plain'' []] else [])
           @ (if html e \<noteq> [] then [MIMEText (html e) ''html'' []] else [])) @ aps)"
    and aps: "list_all2 (\<lambda>a p. attachment_part a = Inr p) (attachments e) aps"
    by blast
  from aps have "list_all2 (\<lambda>a p. b64decode (payload p) = Some (content a)) (attachments e) aps"
    by (rule list_all2_mono) (rule attachment_part_payload)
  with d have "\<exists>aps. parts d =
            (if body e \<noteq> [] then [MIMEText (body e) ''plain'' []] else [])
            @ (if html e \<noteq> [] then [MIMEText (html e) ''html'' []] else []) @ aps
          \<and> list_all2 (\<lambda>a p. b64decode (payload p) = Some (content a)) (attachments e) aps"
    by (intro exI [of _ aps]) simp
  with assms(1) show ?thesis
    by (simp add: build_message_def)
qed

theorem attachment_payload_roundtrip_witness:
  "attachments (example_mail\<lparr>attachments := [example_attachment]\<rparr>) \<noteq> [] \<and>
   b64decode (''AQID'' @ [CHR 0x0A]) = Some (content example_attachment)"
proof -
  let ?e = "example_mail\<lparr>attachments := [example_attachment]\<rparr>"
  have ne: "attachments ?e \<noteq> []"
    by simp
  from attachment_payload_roundtrip [OF build_example_attachment ne, where as_string = Inr] obtain aps where
    "[MIMEText ''Hello from RoadSMTP!'' ''plain'' [],
      MIMEText ''<h1>Hello from RoadSMTP!</h1>'' ''html'' [],
      MIMEBase ''application'' ''octet-stream''
        [(''Content-Transfer-Encoding'', ''base64''),
         (''Content-Disposition'', ''attachment; filename=a.bin'')]
        (''AQID'' @ [CHR 0x0A])]
     = [MIMEText ''Hello from RoadSMTP!'' ''plain'' [],
        MIMEText ''<h1>Hello from RoadSMTP!</h1>'' ''html'' []] @ aps"
    and l: "list_all2 (\<lambda>a p. b64decode (payload p) = Some (content a)) [example_attachment] aps"
    by (auto simp: example_mail_def)
  then have "aps = [MIMEBase ''application'' ''octet-stream''
        [(''Content-Transfer-Encoding'', ''base64''),
         (''Content-Disposition'', ''attachment; filename=a.bin'')]
        (''AQID'' @ [CHR 0x0A])]"
    by simp
  with l ne show ?thesis
    by simp
qed

section \<open>Properties of the session\<close>

subsection \<open>Reading and writing\<close>

lemma read_lines_reply:
  "reply_lines pre t \<Longrightarrow>
   read_lines acc (map Line pre @ Line t # evs) = (Returns (acc @ map rstrip_crlf (pre @ [t])), evs)"
  by (induction pre arbitrary: acc) (simp_all add: reply_lines_def Let_def)

lemma read_response_reply:
  "rfile s \<Longrightarrow> rx s = map Line pre @ Line t # evs \<Longrightarrow> reply_lines pre t \<Longrightarrow>
   read_response s =
     (case reply_code t of
        None \<Rightarrow> (Raises ValueError, s\<lparr>rx := evs\<rparr>)
      | Some code \<Rightarrow> (Returns (code, reply_text pre t), s\<lparr>rx := evs\<rparr>))"
  by (simp add: read_response_def read_lines_reply reply_code_def reply_text_def
      split: option.split)

lemma sendall_ok:
  "sock s = Some n \<Longrightarrow> writes_ok s \<Longrightarrow>
   sendall d s = (Returns (), s\<lparr>tx := tl (tx s), sent := sent s @ [d]\<rparr>)"
  by (cases "tx s") (auto simp: sendall_def writes_ok_def)

lemma writes_ok_tl: "writes_ok s \<Longrightarrow> writes_ok (s\<lparr>tx := tl (tx s), rx := evs, sent := ws\<rparr>)"
  by (cases "tx s") (auto simp: writes_ok_def)

lemma command_reply:
  "sock s = Some n \<Longrightarrow> rfile s \<Longrightarrow> writes_ok s \<Longrightarrow>
   rx s = reply_events (pre, t) @ evs \<Longrightarrow> reply_lines pre t \<Longrightarrow> reply_code t = Some c \<Longrightarrow>
   command cmd s =
     (Returns (c, reply_text pre t),
      s\<lparr>tx := tl (tx s), rx := evs, sent := sent s @ [Bytes (cmd @ [CHR 0x0D, CHR 0x0A])]\<rparr>)"
  by (simp add: command_def sendall_ok read_response_reply reply_events_def)

lemma py_int_digits:
  "is_digit a \<Longrightarrow> is_digit b \<Longrightarrow> is_digit c \<Longrightarrow>
   py_int [a, b, c] = Some (int (100 * digit_of a + 10 * digit_of b + digit_of c))"
proof -
  assume a: "is_digit a" and b: "is_digit b" and c: "is_digit c"
  have ns: "\<not> py_isspace x" if "is_digit x" for x
  proof -
    have "of_char x \<notin> {9::nat, 10, 11, 12, 13, 32, 133, 160}"
      using that by (auto simp: is_digit_def)
    then show ?thesis
      by (auto simp: py_isspace_def)
  qed
  have sg: "x \<noteq> CHR ''-'' \<and> x \<noteq> CHR ''+''" if "is_digit x" for x
    using that by (auto simp: is_digit_def)
  show ?thesis
    using a b c ns [OF a] ns [OF c] sg [OF a]
    by (simp add: py_int_def Let_def)
qed

lemma py_int_220: "py_int ''220'' = Some 220"
  by (simp add: py_int_def Let_def py_isspace_def is_digit_def digit_of_def)

lemma py_int_xyz: "py_int ''xyz'' = None"
  by (simp add: py_int_def Let_def py_isspace_def is_digit_def)

text \<open>
  Claim C6. The response reader takes lines up to the first one that is at least four
  characters long with a space as its fourth character. It then returns the integer that
  \<^verbatim>\<open>int\<close> makes of the first three characters of that line, with all the lines read joined
  by newlines, and leaves the rest of the input unread; when the first line is final, one
  line is read. Where the three characters are decimal digits the integer is the number
  they write; where they are no integer, \<^verbatim>\<open>int\<close> raises.
\<close>

theorem read_response_accumulates:
  assumes "rfile s" "rx s = map Line pre @ Line t # evs"
    and "\<forall>l \<in> set pre. \<not> is_final (rstrip_crlf l)" "is_final (rstrip_crlf t)"
  shows "read_response s =
     (case py_int (take 3 (rstrip_crlf t)) of
        None \<Rightarrow> (Raises ValueError, s\<lparr>rx := evs\<rparr>)
      | Some code \<Rightarrow>
          (Returns (code, join [CHR 0x0A] (map rstrip_crlf (pre @ [t]))), s\<lparr>rx := evs\<rparr>))
     \<and> (\<forall>a b c. take 3 (rstrip_crlf t) = [a, b, c]
            \<and> 48 \<le> (of_char a :: nat) \<and> (of_char a :: nat) \<le> 57
            \<and> 48 \<le> (of_char b :: nat) \<and> (of_char b :: nat) \<le> 57
            \<and> 48 \<le> (of_char c :: nat) \<and> (of_char c :: nat) \<le> 57 \<longrightarrow>
          read_response s =
            (Returns (int (100 * (of_char a - 48) + 10 * (of_char b - 48) + (of_char c - 48)),
                      join [CHR 0x0A] (map rstrip_crlf (pre @ [t]))),
             s\<lparr>rx := evs\<rparr>))"
proof -
  have g: "read_response s =
     (case py_int (take 3 (rstrip_crlf t)) of
        None \<Rightarrow> (Raises ValueError, s\<lparr>rx := evs\<rparr>)
      | Some code \<Rightarrow>
          (Returns (code, join [CHR 0x0A] (map rstrip_crlf (pre @ [t]))), s\<lparr>rx := evs\<rparr>))"
    using read_response_reply [of s pre t evs] assms
    by (simp add: reply_lines_def reply_code_def reply_text_def split: option.split)
  have "read_response s =
            (Returns (int (100 * (of_char a - 48) + 10 * (of_char b - 48) + (of_char c - 48)),
                      join [CHR 0x0A] (map rstrip_crlf (pre @ [t]))),
             s\<lparr>rx := evs\<rparr>)"
    if "take 3 (rstrip_crlf t) = [a, b, c]"
      "48 \<le> (of_char a :: nat) \<and> (of_char a :: nat) \<le> 57"
      "48 \<le> (of_char b :: nat) \<and> (of_char b :: nat) \<le> 57"
      "48 \<le> (of_char c :: nat) \<and> (of_char c :: nat) \<le> 57" for a b c
  proof -
    have "py_int [a, b, c] = Some (int (100 * digit_of a + 10 * digit_of b + digit_of c))"
      using that(2-4) by (intro py_int_digits) (simp_all add: is_digit_def)
    with g that(1) show ?thesis
      by (simp add: digit_of_def)
  qed
  with g show ?thesis
    by blast
qed

theorem read_response_accumulates_witness:
  "read_response
     (example_client
        [Line (''220-Welcome'' @ [CHR 0x0D, CHR 0x0A]), Line (''220 Ready'' @ [CHR 0x0D, CHR 0x0A]),
         Line (''250 OK'' @ [CHR 0x0D, CHR 0x0A])])
   = (Returns (220, ''220-Welcome'' @ [CHR 0x0A] @ ''220 Ready''),
      example_client [Line (''250 OK'' @ [CHR 0x0D, CHR 0x0A])])"
proof -
  let ?s = "example_client
        [Line (''220-Welcome'' @ [CHR 0x0D, CHR 0x0A]), Line (''220 Ready'' @ [CHR 0x0D, CHR 0x0A]),
         Line (''250 OK'' @ [CHR 0x0D, CHR 0x0A])]"
  have h: "rfile ?s"
    "rx ?s = map Line [''220-Welcome'' @ [CHR 0x0D, CHR 0x0A]]
             @ Line (''220 Ready'' @ [CHR 0x0D, CHR 0x0A]) # [Line (''250 OK'' @ [CHR 0x0D, CHR 0x0A])]"
    "\<forall>l \<in> set [''220-Welcome'' @ [CHR 0x0D, CHR 0x0A]]. \<not> is_final (rstrip_crlf l)"
    "is_final (rstrip_crlf (''220 Ready'' @ [CHR 0x0D, CHR 0x0A]))"
    by (simp_all add: example_client_def new_client_def rstrip_crlf_def is_final_def)
  have "read_response ?s =
            (Returns (int (100 * (of_char CHR ''2'' - 48) + 10 * (of_char CHR ''2'' - 48)
                           + (of_char CHR ''0'' - 48)),
                      join [CHR 0x0A] (map rstrip_crlf
                        ([''220-Welcome'' @ [CHR 0x0D, CHR 0x0A]] @ [''220 Ready'' @ [CHR 0x0D, CHR 0x0A]]))),
             ?s\<lparr>rx := [Line (''250 OK'' @ [CHR 0x0D, CHR 0x0A])]\<rparr>)"
    by (rule read_response_accumulates [OF h, THEN conjunct2, rule_format])
       (simp add: rstrip_crlf_def)
  then show ?thesis
    by (simp add: rstrip_crlf_def example_client_def new_client_def)
qed

subsection \<open>What the calls leave unchanged\<close>

lemma sock_sendall: "sock (snd (sendall d s)) = sock s"
  by (simp add: sendall_def split: option.split list.split)

lemma rx_sendall: "rx (snd (sendall d s)) = rx s"
  by (simp add: sendall_def split: option.split list.split)

lemma sock_read_response: "sock (snd (read_response s)) = sock s"
  by (simp add: read_response_def split: prod.split outcome.split option.split)

lemma sock_and_then:
  "(\<And>a s'. sock (snd (f a s')) = sock s') \<Longrightarrow> sock (snd (and_then m f)) = sock (snd m)"
proof (cases m)
  case (Pair r s')
  assume "\<And>a s'. sock (snd (f a s')) = sock s'"
  with Pair show ?thesis
    by (cases r) simp_all
qed

lemma sock_command: "sock (snd (command cmd s)) = sock s"
  by (simp add: command_def sock_and_then sock_read_response sock_sendall)

lemma sock_rcpt_loop: "sock (snd (rcpt_loop rs s)) = sock s"
proof (induction rs arbitrary: s)
  case Nil
  then show ?case by simp
next
  case (Cons r rs)
  have "sock (snd (and_then (command (''RCPT TO:<'' @ r @ ''>'') s) (\<lambda>(code, msg) s.
       if code \<noteq> 250 \<and> code \<noteq> 251
       then (Raises (SMTPError (''RCPT TO failed for '' @ r @ '': '' @ msg)), s)
       else rcpt_loop rs s))) = sock (snd (command (''RCPT TO:<'' @ r @ ''>'') s))"
    by (rule sock_and_then) (simp add: Cons.IH split: prod.split)
  then show ?case
    by (simp add: sock_command)
qed

lemma sock_send: "sock (snd (send as_string e s)) = sock s"
  unfolding send_def Let_def
  by (simp add: sock_and_then sock_command sock_rcpt_loop sock_sendall
      split: prod.split sum.split)

lemma read_response_hangs:
  "fst (read_response s) = Hangs \<longleftrightarrow> rfile s \<and> fst (read_lines [] (rx s)) = Hangs"
  by (auto simp: read_response_def split: prod.splits outcome.splits option.splits)

lemma command_hangs:
  "fst (command cmd s) = Hangs \<Longrightarrow> fst (read_lines [] (rx s)) = Hangs"
proof -
  assume h: "fst (command cmd s) = Hangs"
  obtain r s1 where w: "sendall (Bytes (cmd @ [CHR 0x0D, CHR 0x0A])) s = (r, s1)"
    by (cases "sendall (Bytes (cmd @ [CHR 0x0D, CHR 0x0A])) s")
  have rx: "rx s1 = rx s"
    using rx_sendall [of "Bytes (cmd @ [CHR 0x0D, CHR 0x0A])" s] w by simp
  have "r \<noteq> Hangs"
    using w by (auto simp: sendall_def split: option.splits list.splits if_splits)
  with h w rx show ?thesis
    by (cases r) (auto simp: command_def read_response_hangs)
qed

subsection \<open>Closing\<close>

text \<open>
  What the QUIT command raises is caught, so \<^verbatim>\<open>close()\<close> never raises; and when it returns,
  \<^verbatim>\<open>close()\<close> has been called on the socket if there is one. It returns whenever the
  reading of the response to QUIT ends.
\<close>

lemma close_never_raises:
  "fst (close s) \<noteq> Raises e \<and>
   (fst (close s) = Returns () \<longrightarrow> sock (snd (close s)) = map_option Suc (sock s)) \<and>
   (fst (read_lines [] (rx s)) \<noteq> Hangs \<longrightarrow> fst (close s) = Returns ())"
proof -
  obtain r s1 where c: "command ''QUIT'' s = (r, s1)"
    by (cases "command ''QUIT'' s")
  have s1: "sock s1 = sock s"
    using sock_command [of "''QUIT''" s] c by simp
  have h: "r = Hangs \<Longrightarrow> fst (read_lines [] (rx s)) = Hangs"
    using command_hangs [of "''QUIT''" s] c by simp
  show ?thesis
    using c s1 h by (cases r; cases "sock s") (auto simp: close_def)
qed

lemma close_after_malformed_reply:
  "close (example_client [Line ''xyz oops''])
   = (Returns (),
      (example_client [])\<lparr>sock := Some 1, sent := [Bytes (''QUIT'' @ [CHR 0x0D, CHR 0x0A])]\<rparr>)"
  by (simp add: close_def command_def sendall_def read_response_def example_client_def
      new_client_def rstrip_crlf_def is_final_def py_int_xyz)

text \<open>
  Claim C7. \<^verbatim>\<open>close()\<close> is to close the socket unconditionally, also on a broken transport.
  When the peer has closed the connection, every read yields the empty line and the loop
  that reads the response to QUIT never ends: \<^verbatim>\<open>close()\<close> raises nothing, but it does not
  return, and \<^verbatim>\<open>close()\<close> is never called on the socket.
\<close>

theorem close_hangs_at_eof:
  "close (example_client [])
   = (Hangs, (example_client [])\<lparr>sent := [Bytes (''QUIT'' @ [CHR 0x0D, CHR 0x0A])]\<rparr>)"
  by (simp add: close_def command_def sendall_def read_response_def example_client_def
      new_client_def)

theorem close_hangs_at_eof_witness:
  "fst (close (example_client [])) = Hangs \<and> sock (snd (close (example_client []))) = Some 0"
  using close_hangs_at_eof by (simp add: example_client_def new_client_def)

text \<open>
  Claim C3. The transport is to be closed on every path, also when an error occurs inside
  \<^verbatim>\<open>connect()\<close>. The \<^verbatim>\<open>with\<close> statement calls \<^verbatim>\<open>close()\<close> only once \<^verbatim>\<open>connect()\<close> has returned,
  and \<^verbatim>\<open>connect()\<close> has no cleanup of its own: when the read of the reply to EHLO raises,
  the module's \<^verbatim>\<open>send\<close> raises with the socket created and \<^verbatim>\<open>close()\<close> never called on it.
\<close>

theorem module_send_leaks_socket:
  "module_send as_string example_config example_mail
     [Line (''220 Ready'' @ [CHR 0x0D, CHR 0x0A]), Fails OSError] [] True True
   = (Raises OSError,
      (new_client example_config [] [] True True)
        \<lparr>sock := Some 0, rfile := True,
         sent := [Bytes (''EHLO localhost'' @ [CHR 0x0D, CHR 0x0A])]\<rparr>)"
  by (simp add: module_send_def connect_def command_def sendall_def read_response_def
      new_client_def rstrip_crlf_def is_final_def py_int_220 Let_def)

theorem module_send_leaks_socket_witness:
  "fst (module_send Inr example_config example_mail
          [Line (''220 Ready'' @ [CHR 0x0D, CHR 0x0A]), Fails OSError] [] True True)
     = Raises OSError
   \<and> sock (snd (module_send Inr example_config example_mail
          [Line (''220 Ready'' @ [CHR 0x0D, CHR 0x0A]), Fails OSError] [] True True))
     = Some 0"
  using module_send_leaks_socket [where as_string = Inr] by simp

text \<open>
  Once \<^verbatim>\<open>connect()\<close> has returned, the \<^verbatim>\<open>with\<close> statement does close the socket, exactly
  once, whether \<^verbatim>\<open>send\<close> returns or raises, unless a response loop never ends.
\<close>

lemma close_sock:
  "fst (close s) \<noteq> Hangs \<Longrightarrow> sock (snd (close s)) = map_option Suc (sock s)"
proof -
  obtain r s1 where c: "command ''QUIT'' s = (r, s1)"
    by (cases "command ''QUIT'' s")
  have "sock s1 = sock s"
    using sock_command [of "''QUIT''" s] c by simp
  moreover assume "fst (close s) \<noteq> Hangs"
  ultimately show ?thesis
    using c by (cases r; cases "sock s") (auto simp: close_def)
qed

lemma opened_and_then:
  "sock (snd m) = Some 0 \<Longrightarrow> (\<And>a s'. sock s' = Some 0 \<Longrightarrow> sock (snd (f a s')) = Some 0) \<Longrightarrow>
   sock (snd (and_then m f)) = Some 0"
proof (cases m)
  case (Pair r s1)
  assume "sock (snd m) = Some 0" "\<And>a s'. sock s' = Some 0 \<Longrightarrow> sock (snd (f a s')) = Some 0"
  with Pair show ?thesis
    by (cases r) simp_all
qed

lemma sock_starttls: "sock s = Some 0 \<Longrightarrow> sock (snd (starttls s)) = Some 0"
  unfolding starttls_def
  by (auto intro!: opened_and_then simp: sock_command)

lemma sock_auth_login: "sock s = Some 0 \<Longrightarrow> sock (snd (auth_login s)) = Some 0"
  unfolding auth_login_def
  by (intro opened_and_then) (simp_all add: sock_command)

lemma sock_connect: "sock (snd (connect s)) = Some 0"
  unfolding connect_def Let_def
  by (auto intro!: opened_and_then simp: sock_command sock_read_response sock_starttls sock_auth_login)

lemma module_send_closes_once:
  fixes as_string :: "mime \<Rightarrow> exn + 'd"
  assumes "fst (connect (new_client cfg evs wr cok tok :: 'd client)) = Returns ()"
    and "fst (module_send as_string cfg mail evs wr cok tok) \<noteq> Hangs"
  shows "sock (snd (module_send as_string cfg mail evs wr cok tok)) = Some 1"
proof -
  let ?c = "new_client cfg evs wr cok tok :: 'd client"
  obtain s1 where c: "connect ?c = (Returns (), s1)"
    using assms(1) by (cases "connect ?c") auto
  have s1: "sock s1 = Some 0"
    using sock_connect [of ?c] c by simp
  obtain r s2 where s: "send as_string mail s1 = (r, s2)"
    by (cases "send as_string mail s1")
  have s2: "sock s2 = Some 0"
    using sock_send [of as_string mail s1] s s1 by simp
  obtain q s3 where q: "close s2 = (q, s3)"
    by (cases "close s2")
  from assms(2) c s q have nh: "r \<noteq> Hangs" "q \<noteq> Hangs"
    by (auto simp: module_send_def split: outcome.splits)
  from close_sock [of s2] q nh(2) s2 have "sock s3 = Some 1"
    by simp
  with c s q nh show ?thesis
    by (cases r; cases q) (simp_all add: module_send_def)
qed

subsection \<open>The loop over the recipients\<close>

lemma rcpt_loop_accepted:
  "sock s = Some n \<Longrightarrow> rfile s \<Longrightarrow> writes_ok s \<Longrightarrow>
   rx s = concat (map reply_events rs) @ evs \<Longrightarrow> length rs = length rcpts \<Longrightarrow>
   \<forall>r \<in> set rs. reply_lines (fst r) (snd r) \<and>
      (reply_code (snd r) = Some 250 \<or> reply_code (snd r) = Some 251) \<Longrightarrow>
   rcpt_loop rcpts s =
     (Returns (),
      s\<lparr>tx := drop (length rcpts) (tx s), rx := evs,
        sent := sent s @ map (\<lambda>r. Bytes (''RCPT TO:<'' @ r @ ''>'' @ [CHR 0x0D, CHR 0x0A])) rcpts\<rparr>)"
proof (induction rcpts arbitrary: s rs)
  case Nil
  then show ?case by simp
next
  case (Cons r rcpts)
  then obtain rep rs' where rs: "rs = rep # rs'"
    by (cases rs) auto
  obtain pre t where rep: "rep = (pre, t)"
    by (cases rep)
  from Cons.prems rs rep obtain c where
    c: "reply_lines pre t" "reply_code t = Some c" "c = 250 \<or> c = 251"
    by auto
  let ?s1 = "s\<lparr>tx := tl (tx s), rx := concat (map reply_events rs') @ evs,
      sent := sent s @ [Bytes ((''RCPT TO:<'' @ r @ ''>'') @ [CHR 0x0D, CHR 0x0A])]\<rparr>"
  have cmd: "command (''RCPT TO:<'' @ r @ ''>'') s = (Returns (c, reply_text pre t), ?s1)"
    using Cons.prems rs rep c by (intro command_reply) auto
  have "rcpt_loop rcpts ?s1 =
     (Returns (),
      ?s1\<lparr>tx := drop (length rcpts) (tx ?s1), rx := evs,
        sent := sent ?s1 @ map (\<lambda>r. Bytes (''RCPT TO:<'' @ r @ ''>'' @ [CHR 0x0D, CHR 0x0A])) rcpts\<rparr>)"
    using Cons.prems rs by (intro Cons.IH [of _ rs']) (auto simp: writes_ok_tl)
  with cmd c(3) show ?case
    by (auto simp: drop_Suc)
qed

lemma rcpt_loop_rejected:
  assumes "sock s = Some n" "rfile s" "writes_ok s"
    and "rx s = concat (map reply_events rs) @ reply_events (pre, t) @ evs"
    and "length rs = length accepted"
    and "\<forall>r \<in> set rs. reply_lines (fst r) (snd r) \<and>
           (reply_code (snd r) = Some 250 \<or> reply_code (snd r) = Some 251)"
    and "reply_lines pre t" "reply_code t = Some c" "c \<noteq> 250" "c \<noteq> 251"
  shows "rcpt_loop (accepted @ r # later) s =
     (Raises (SMTPError (''RCPT TO failed for '' @ r @ '': '' @ reply_text pre t)),
      s\<lparr>tx := drop (Suc (length accepted)) (tx s), rx := evs,
        sent := sent s @ map (\<lambda>r. Bytes (''RCPT TO:<'' @ r @ ''>'' @ [CHR 0x0D, CHR 0x0A]))
                           (accepted @ [r])\<rparr>)"
  using assms(1-6)
proof (induction accepted arbitrary: s rs)
  case Nil
  then have "rx s = reply_events (pre, t) @ evs"
    by simp
  with Nil assms(7-10) have
    "command (''RCPT TO:<'' @ r @ ''>'') s =
       (Returns (c, reply_text pre t),
        s\<lparr>tx := tl (tx s), rx := evs,
          sent := sent s @ [Bytes ((''RCPT TO:<'' @ r @ ''>'') @ [CHR 0x0D, CHR 0x0A])]\<rparr>)"
    by (intro command_reply) auto
  with assms(9,10) show ?case
    by (simp add: drop_Suc)
next
  case (Cons a accepted)
  then obtain rep rs' where rs: "rs = rep # rs'"
    by (cases rs) auto
  obtain p u where rep: "rep = (p, u)"
    by (cases rep)
  from Cons.prems rs rep obtain k where
    k: "reply_lines p u" "reply_code u = Some k" "k = 250 \<or> k = 251"
    by auto
  let ?s1 = "s\<lparr>tx := tl (tx s),
      rx := concat (map reply_events rs') @ reply_events (pre, t) @ evs,
      sent := sent s @ [Bytes ((''RCPT TO:<'' @ a @ ''>'') @ [CHR 0x0D, CHR 0x0A])]\<rparr>"
  have cmd: "command (''RCPT TO:<'' @ a @ ''>'') s = (Returns (k, reply_text p u), ?s1)"
    using Cons.prems rs rep k by (intro command_reply) auto
  have "rcpt_loop (accepted @ r # later) ?s1 =
     (Raises (SMTPError (''RCPT TO failed for '' @ r @ '': '' @ reply_text pre t)),
      ?s1\<lparr>tx := drop (Suc (length accepted)) (tx ?s1), rx := evs,
        sent := sent ?s1 @ map (\<lambda>r. Bytes (''RCPT TO:<'' @ r @ ''>'' @ [CHR 0x0D, CHR 0x0A]))
                           (accepted @ [r])\<rparr>)"
    using Cons.prems rs by (intro Cons.IH [of _ rs']) (auto simp: writes_ok_tl)
  with cmd k(3) show ?case
    by (auto simp: drop_Suc)
qed

lemma writes_ok_tlI: "writes_ok s \<Longrightarrow> tx s' = tl (tx s) \<Longrightarrow> writes_ok s'"
  by (cases "tx s") (auto simp: writes_ok_def)


subsection \<open>Sending\<close>

lemma sent_sendall: "\<exists>t. sent (snd (sendall d s)) = sent s @ t \<and> set t \<subseteq> {d}"
  by (cases "sock s"; cases "tx s") (auto simp: sendall_def)

lemma sent_read_response: "sent (snd (read_response s)) = sent s"
  by (simp add: read_response_def split: prod.split outcome.split option.split)

lemma sent_and_then:
  assumes "\<exists>t. sent (snd m) = sent s0 @ t \<and> set t \<subseteq> A"
    and "\<And>a s'. \<exists>t. sent (snd (f a s')) = sent s' @ t \<and> set t \<subseteq> A"
  shows "\<exists>t. sent (snd (and_then m f)) = sent s0 @ t \<and> set t \<subseteq> A"
proof (cases m)
  case (Pair r s1)
  from assms(1) Pair obtain t1 where t1: "sent s1 = sent s0 @ t1" "set t1 \<subseteq> A"
    by auto
  show ?thesis
  proof (cases r)
    case (Returns a)
    from assms(2) [of a s1] obtain t2 where "sent (snd (f a s1)) = sent s1 @ t2" "set t2 \<subseteq> A"
      by auto
    with t1 Pair Returns show ?thesis
      by (intro exI [of _ "t1 @ t2"]) simp
  qed (use Pair t1 in auto)
qed

lemma sent_command:
  "\<exists>t. sent (snd (command cmd s)) = sent s @ t \<and> set t \<subseteq> {Bytes (cmd @ [CHR 0x0D, CHR 0x0A])}"
  unfolding command_def
  by (rule sent_and_then [OF sent_sendall]) (simp add: sent_read_response)

lemma sent_mono:
  "\<exists>t. sent s' = sent s @ t \<and> set t \<subseteq> A \<Longrightarrow> A \<subseteq> B \<Longrightarrow> \<exists>t. sent s' = sent s @ t \<and> set t \<subseteq> B"
  by blast

lemma data_phase_sent:
  "\<exists>t. sent (snd (and_then (command ''DATA'' s) (\<lambda>(code, msg) s.
               if code \<noteq> 354 then (Raises (SMTPError (''DATA failed: '' @ msg)), s)
               else
                 (case build_message as_string (config s) e of
                    Inl ex \<Rightarrow> (Raises ex, s)
                  | Inr message \<Rightarrow>
                      and_then (sendall (Document message) s) (\<lambda>_ s.
                      and_then (command ''.'' s) (\<lambda>(code, msg) s.
                        if code \<noteq> 250 then (Raises (SMTPError (''Send failed: '' @ msg)), s)
                        else (Returns True, s))))))) = sent s @ t
       \<and> set t \<subseteq> {Bytes (''DATA'' @ [CHR 0x0D, CHR 0x0A]), Bytes (''.'' @ [CHR 0x0D, CHR 0x0A])}
                  \<union> range Document"
proof (rule sent_and_then, goal_cases)
  case 1
  show ?case
    by (rule sent_mono [OF sent_command]) simp
next
  case (2 a s1)
  obtain code msg where a: "a = (code, msg)"
    by (cases a)
  show ?case
  proof (cases "code \<noteq> 354")
    case True
    with a show ?thesis by simp
  next
    case False
    show ?thesis
    proof (cases "build_message as_string (config s1) e")
      case (Inl ex)
      with a False show ?thesis by simp
    next
      case (Inr message)
      have "\<exists>t. sent (snd (and_then (sendall (Document message) s1) (\<lambda>_ s.
                      and_then (command ''.'' s) (\<lambda>(code, msg) s.
                        if code \<noteq> 250 then (Raises (SMTPError (''Send failed: '' @ msg)), s)
                        else (Returns True, s))))) = sent s1 @ t
         \<and> set t \<subseteq> {Bytes (''DATA'' @ [CHR 0x0D, CHR 0x0A]), Bytes (''.'' @ [CHR 0x0D, CHR 0x0A])}
                  \<union> range Document"
      proof (rule sent_and_then, goal_cases)
        case 1
        show ?case
          by (rule sent_mono [OF sent_sendall]) simp
      next
        case (2 u s2)
        show ?case
        proof (rule sent_and_then, goal_cases)
          case 1
          show ?case
            by (rule sent_mono [OF sent_command]) simp
        next
          case (2 b s3)
          show ?case
            by (cases b) simp
        qed
      qed
      with a False Inr show ?thesis by simp
    qed
  qed
qed

lemma example_client_simps:
  "sock (example_client evs) = Some 0" "rfile (example_client evs)" "writes_ok (example_client evs)"
  "rx (example_client evs) = evs" "tx (example_client evs) = []" "sent (example_client evs) = []"
  "config (example_client evs) = example_config"
  by (simp_all add: example_client_def new_client_def writes_ok_def)

lemma build_example_no_to:
  "message_object example_config (example_mail\<lparr>to := []\<rparr>) =
     Inr (MIMEMultipart ''alternative''
           [(''Subject'', ''Test Email''), (''From'', ''user@example.com''), (''To'', [])]
           [MIMEText ''Hello from RoadSMTP!'' ''plain'' [],
            MIMEText ''<h1>Hello from RoadSMTP!</h1>'' ''html'' []])"
  by (simp add: message_object_def example_config_def example_mail_def)

text \<open>
  Claim C4. Once MAIL FROM has been accepted, \<^verbatim>\<open>send\<close> issues one RCPT TO command for each
  address of \<open>to @ cc @ bcc\<close>, in that order. When all of them are answered with 250 or
  251, these are all the RCPT TO commands: what is written after them is DATA, the
  document and the final dot. When the reply for a recipient has another code, \<^verbatim>\<open>send\<close>
  raises the protocol error that names this recipient and carries the reply, and the
  commands written are MAIL FROM and the RCPT TO commands up to this recipient: none is
  issued for the later ones.
\<close>

theorem send_rcpt_in_order:
  assumes "sock s = Some n" "rfile s" "writes_ok s"
    and "rx s = reply_events m @ concat (map reply_events rs) @ rest"
    and "reply_lines (fst m) (snd m)" "reply_code (snd m) = Some 250"
    and "to e @ cc e @ bcc e = accepted @ later"
    and "length rs = length accepted"
    and "\<forall>r \<in> set rs. reply_lines (fst r) (snd r) \<and>
           (reply_code (snd r) = Some 250 \<or> reply_code (snd r) = Some 251)"
  shows
    "(later = [] \<longrightarrow>
        (\<exists>tail. sent (snd (send as_string e s)) =
           sent s
           @ Bytes (''MAIL FROM:<'' @ (if from_addr e \<noteq> [] then from_addr e else username (config s))
                    @ ''>'' @ [CHR 0x0D, CHR 0x0A])
           # map (\<lambda>r. Bytes (''RCPT TO:<'' @ r @ ''>'' @ [CHR 0x0D, CHR 0x0A])) (to e @ cc e @ bcc e)
           @ tail
         \<and> set tail \<subseteq> {Bytes (''DATA'' @ [CHR 0x0D, CHR 0x0A]), Bytes (''.'' @ [CHR 0x0D, CHR 0x0A])}
                        \<union> range Document))
     \<and> (\<forall>r later' pre t c evs.
          later = r # later' \<and> rest = reply_events (pre, t) @ evs \<and> reply_lines pre t \<and>
          reply_code t = Some c \<and> c \<noteq> 250 \<and> c \<noteq> 251 \<longrightarrow>
          send as_string e s =
            (Raises (SMTPError (''RCPT TO failed for '' @ r @ '': '' @ reply_text pre t)),
             s\<lparr>tx := drop (length accepted + 2) (tx s), rx := evs,
               sent := sent s
                 @ Bytes (''MAIL FROM:<'' @ (if from_addr e \<noteq> [] then from_addr e else username (config s))
                          @ ''>'' @ [CHR 0x0D, CHR 0x0A])
                 # map (\<lambda>r. Bytes (''RCPT TO:<'' @ r @ ''>'' @ [CHR 0x0D, CHR 0x0A]))
                       (accepted @ [r])\<rparr>))"
proof -
  let ?from = "if from_addr e \<noteq> [] then from_addr e else username (config s)"
  let ?mail = "Bytes ((''MAIL FROM:<'' @ ?from @ ''>'') @ [CHR 0x0D, CHR 0x0A])"
  let ?s1 = "s\<lparr>tx := tl (tx s), rx := concat (map reply_events rs) @ rest,
               sent := sent s @ [?mail]\<rparr>"
  obtain p u where m: "m = (p, u)"
    by (cases m)
  have mail: "command (''MAIL FROM:<'' @ ?from @ ''>'') s = (Returns (250, reply_text p u), ?s1)"
    using assms(1-6) m by (intro command_reply) auto
  have s1: "sock ?s1 = Some n" "rfile ?s1" "writes_ok ?s1" "config ?s1 = config s"
    using assms(1-3) by (simp_all add: writes_ok_tl)
  have one: ?thesis if "later = []"
  proof -
    let ?s2 = "?s1\<lparr>tx := drop (length accepted) (tx ?s1), rx := rest,
        sent := sent ?s1 @ map (\<lambda>r. Bytes (''RCPT TO:<'' @ r @ ''>'' @ [CHR 0x0D, CHR 0x0A])) accepted\<rparr>"
    have loop: "rcpt_loop accepted ?s1 = (Returns (), ?s2)"
      using s1 assms(8,9) by (intro rcpt_loop_accepted [of _ n rs]) auto
    from data_phase_sent [where s = ?s2 and e = e and as_string = as_string] obtain t where
      "sent (snd (and_then (command ''DATA'' ?s2) (\<lambda>(code, msg) s.
               if code \<noteq> 354 then (Raises (SMTPError (''DATA failed: '' @ msg)), s)
               else
                 (case build_message as_string (config s) e of
                    Inl ex \<Rightarrow> (Raises ex, s)
                  | Inr message \<Rightarrow>
                      and_then (sendall (Document message) s) (\<lambda>_ s.
                      and_then (command ''.'' s) (\<lambda>(code, msg) s.
                        if code \<noteq> 250 then (Raises (SMTPError (''Send failed: '' @ msg)), s)
                        else (Returns True, s))))))) = sent ?s2 @ t"
      "set t \<subseteq> {Bytes (''DATA'' @ [CHR 0x0D, CHR 0x0A]), Bytes (''.'' @ [CHR 0x0D, CHR 0x0A])}
                  \<union> range Document"
      by blast
    with mail loop assms(7) that show ?thesis
      by (simp add: send_def Let_def)
  qed
  have two: ?thesis if "later \<noteq> []"
  proof -
    from that obtain r later' where later: "later = r # later'"
      by (cases later) auto
    have "send as_string e s =
            (Raises (SMTPError (''RCPT TO failed for '' @ r @ '': '' @ reply_text pre t)),
             s\<lparr>tx := drop (length accepted + 2) (tx s), rx := evs,
               sent := sent s @ ?mail
                 # map (\<lambda>r. Bytes (''RCPT TO:<'' @ r @ ''>'' @ [CHR 0x0D, CHR 0x0A]))
                       (accepted @ [r])\<rparr>)"
      if h: "rest = reply_events (pre, t) @ evs" "reply_lines pre t"
          "reply_code t = Some c" "c \<noteq> 250" "c \<noteq> 251"
      for pre t c evs
    proof -
      have "rcpt_loop (accepted @ r # later') ?s1 =
        (Raises (SMTPError (''RCPT TO failed for '' @ r @ '': '' @ reply_text pre t)),
         ?s1\<lparr>tx := drop (Suc (length accepted)) (tx ?s1), rx := evs,
           sent := sent ?s1 @ map (\<lambda>r. Bytes (''RCPT TO:<'' @ r @ ''>'' @ [CHR 0x0D, CHR 0x0A]))
                           (accepted @ [r])\<rparr>)"
        using s1 assms(8,9) h by (intro rcpt_loop_rejected [of _ n rs _ _ _ _ c]) auto
      with mail assms(7) later show ?thesis
        by (simp add: send_def Let_def drop_Suc)
    qed
    with later show ?thesis
      by auto
  qed
  from one two show ?thesis
    by blast
qed

theorem send_rcpt_in_order_witness:
  "send Inr (example_mail\<lparr>cc := [''cc@example.com'']\<rparr>)
     (example_client
        [Line (''250 OK'' @ [CHR 0x0D, CHR 0x0A]), Line (''250 OK'' @ [CHR 0x0D, CHR 0x0A]),
         Line (''550 No'' @ [CHR 0x0D, CHR 0x0A])])
   = (Raises (SMTPError ''RCPT TO failed for cc@example.com: 550 No''),
      (example_client [])
        \<lparr>sent :=
          [Bytes (''MAIL FROM:<user@example.com>'' @ [CHR 0x0D, CHR 0x0A]),
           Bytes (''RCPT TO:<recipient@example.com>'' @ [CHR 0x0D, CHR 0x0A]),
           Bytes (''RCPT TO:<cc@example.com>'' @ [CHR 0x0D, CHR 0x0A])]\<rparr>)"
proof -
  let ?e = "example_mail\<lparr>cc := [''cc@example.com'']\<rparr>"
  let ?ok = "([], ''250 OK'' @ [CHR 0x0D, CHR 0x0A])"
  let ?s = "example_client
        [Line (''250 OK'' @ [CHR 0x0D, CHR 0x0A]), Line (''250 OK'' @ [CHR 0x0D, CHR 0x0A]),
         Line (''550 No'' @ [CHR 0x0D, CHR 0x0A])]"
  have h1: "sock ?s = Some 0" "rfile ?s" "writes_ok ?s"
    by (simp_all add: example_client_simps)
  have h2: "rx ?s = reply_events ?ok @ concat (map reply_events [?ok])
                  @ (reply_events ([], ''550 No'' @ [CHR 0x0D, CHR 0x0A]) @ [])"
    by (simp add: example_client_simps reply_events_def)
  have r: "reply_lines (fst ?ok) (snd ?ok)" "reply_lines [] (''550 No'' @ [CHR 0x0D, CHR 0x0A])"
    by (simp_all add: reply_lines_def rstrip_crlf_def is_final_def)
  have c: "reply_code (snd ?ok) = Some 250" "reply_code (''550 No'' @ [CHR 0x0D, CHR 0x0A]) = Some 550"
    by (simp_all add: reply_code_def rstrip_crlf_def py_int_def Let_def py_isspace_def
        is_digit_def digit_of_def)
  have h3: "to ?e @ cc ?e @ bcc ?e = [''recipient@example.com''] @ [''cc@example.com'']"
    by (simp add: example_mail_def)
  have h4: "length [?ok] = length [''recipient@example.com'']"
    by simp
  have h5: "\<forall>r \<in> set [?ok]. reply_lines (fst r) (snd r) \<and>
           (reply_code (snd r) = Some 250 \<or> reply_code (snd r) = Some 251)"
    using r(1) c(1) by simp
  note th = send_rcpt_in_order [OF h1 h2 r(1) c(1) h3 h4 h5, THEN conjunct2, rule_format,
      where r = "''cc@example.com''" and later' = "[]" and pre = "[]"
        and t = "''550 No'' @ [CHR 0x0D, CHR 0x0A]" and c = 550 and evs = "[]"]
  have "send Inr ?e ?s =
            (Raises (SMTPError (''RCPT TO failed for '' @ ''cc@example.com'' @ '': ''
                                @ reply_text [] (''550 No'' @ [CHR 0x0D, CHR 0x0A]))),
             ?s\<lparr>tx := drop (length [''recipient@example.com''] + 2) (tx ?s), rx := [],
               sent := sent ?s
                 @ Bytes (''MAIL FROM:<'' @ (if from_addr ?e \<noteq> [] then from_addr ?e else username (config ?s))
                          @ ''>'' @ [CHR 0x0D, CHR 0x0A])
                 # map (\<lambda>r. Bytes (''RCPT TO:<'' @ r @ ''>'' @ [CHR 0x0D, CHR 0x0A]))
                       ([''recipient@example.com''] @ [''cc@example.com''])\<rparr>)"
    by (rule th) (use r(2) c(2) in simp)
  then show ?thesis
    by (simp add: example_client_def new_client_def example_mail_def example_config_def
        reply_text_def rstrip_crlf_def)
qed

subsection \<open>The outcome of sending\<close>

lemma send_data_phase:
  "send as_string e s =
     and_then (command (''MAIL FROM:<'' @ (if from_addr e \<noteq> [] then from_addr e
                                           else username (config s)) @ ''>'') s)
       (\<lambda>(code, msg) s.
          if code \<noteq> 250 then (Raises (SMTPError (''MAIL FROM failed: '' @ msg)), s)
          else and_then (rcpt_loop (to e @ cc e @ bcc e) s) (\<lambda>_ s. data_phase as_string e s))"
proof -
  have dp: "data_phase as_string e = (\<lambda>s. and_then (command ''DATA'' s) (\<lambda>(code, msg) s.
      if code \<noteq> 354 then (Raises (SMTPError (''DATA failed: '' @ msg)), s)
      else
        (case build_message as_string (config s) e of
           Inl ex \<Rightarrow> (Raises ex, s)
         | Inr message \<Rightarrow>
             and_then (sendall (Document message) s) (\<lambda>_ s.
             and_then (command ''.'' s) (\<lambda>(code, msg) s.
               if code \<noteq> 250 then (Raises (SMTPError (''Send failed: '' @ msg)), s)
               else (Returns True, s))))))"
    by (rule ext) (simp add: data_phase_def)
  show ?thesis
    unfolding dp by (simp add: send_def Let_def)
qed

lemma send_mail_step:
  assumes "sock s = Some n" "rfile s" "writes_ok s"
    and "rx s = reply_events m @ rest"
    and "reply_lines (fst m) (snd m)" "reply_code (snd m) = Some c0"
  shows "send as_string e s =
     (if c0 \<noteq> 250
      then (Raises (SMTPError (''MAIL FROM failed: '' @ reply_text (fst m) (snd m))),
            s\<lparr>tx := tl (tx s), rx := rest,
              sent := sent s @ [Bytes ((''MAIL FROM:<'' @ (if from_addr e \<noteq> [] then from_addr e
                                           else username (config s)) @ ''>'') @ [CHR 0x0D, CHR 0x0A])]\<rparr>)
      else and_then (rcpt_loop (to e @ cc e @ bcc e)
             (s\<lparr>tx := tl (tx s), rx := rest,
              sent := sent s @ [Bytes ((''MAIL FROM:<'' @ (if from_addr e \<noteq> [] then from_addr e
                                           else username (config s)) @ ''>'') @ [CHR 0x0D, CHR 0x0A])]\<rparr>))
             (\<lambda>_ s. data_phase as_string e s))"
proof -
  let ?from = "if from_addr e \<noteq> [] then from_addr e else username (config s)"
  have "command (''MAIL FROM:<'' @ ?from @ ''>'') s
          = (Returns (c0, reply_text (fst m) (snd m)),
             s\<lparr>tx := tl (tx s), rx := rest,
               sent := sent s @ [Bytes ((''MAIL FROM:<'' @ ?from @ ''>'') @ [CHR 0x0D, CHR 0x0A])]\<rparr>)"
    using assms by (intro command_reply) (auto simp: reply_events_def)
  then show ?thesis
    by (simp add: send_data_phase)
qed


lemma data_phase_build_fails:
  assumes "sock s = Some n" "rfile s" "writes_ok s"
    and "rx s = reply_events d @ rest"
    and "reply_lines (fst d) (snd d)" "reply_code (snd d) = Some 354"
    and "build_message as_string (config s) e = Inl ex"
  shows "data_phase as_string e s =
     (Raises ex,
      s\<lparr>tx := tl (tx s), rx := rest, sent := sent s @ [Bytes (''DATA'' @ [CHR 0x0D, CHR 0x0A])]\<rparr>)"
proof -
  have "command ''DATA'' s
          = (Returns (354, reply_text (fst d) (snd d)),
             s\<lparr>tx := tl (tx s), rx := rest,
               sent := sent s @ [Bytes (''DATA'' @ [CHR 0x0D, CHR 0x0A])]\<rparr>)"
    using assms by (intro command_reply) (auto simp: reply_events_def)
  with assms(7) show ?thesis
    by (simp add: data_phase_def)
qed

lemma data_phase_final:
  assumes "sock s = Some n" "rfile s" "writes_ok s"
    and "rx s = reply_events d @ reply_events f @ rest"
    and "reply_lines (fst d) (snd d)" "reply_code (snd d) = Some 354"
    and "build_message as_string (config s) e = Inr out"
    and "reply_lines (fst f) (snd f)" "reply_code (snd f) = Some cf"
  shows "data_phase as_string e s =
     (if cf \<noteq> 250 then Raises (SMTPError (''Send failed: '' @ reply_text (fst f) (snd f)))
      else Returns True,
      s\<lparr>tx := tl (tl (tl (tx s))), rx := rest,
        sent := sent s @ [Bytes (''DATA'' @ [CHR 0x0D, CHR 0x0A]), Document out,
                          Bytes (''.'' @ [CHR 0x0D, CHR 0x0A])]\<rparr>)"
proof -
  let ?s1 = "s\<lparr>tx := tl (tx s), rx := reply_events f @ rest,
               sent := sent s @ [Bytes (''DATA'' @ [CHR 0x0D, CHR 0x0A])]\<rparr>"
  have data: "command ''DATA'' s = (Returns (354, reply_text (fst d) (snd d)), ?s1)"
    using assms(1-6) by (intro command_reply) (auto simp: reply_events_def)
  have s1: "sock ?s1 = Some n" "rfile ?s1" "config ?s1 = config s"
    using assms(1,2) by simp_all
  have w1: "writes_ok ?s1"
    by (rule writes_ok_tlI [OF assms(3)]) simp
  let ?s2 = "?s1\<lparr>tx := tl (tx ?s1), sent := sent ?s1 @ [Document out]\<rparr>"
  have body: "sendall (Document out) ?s1 = (Returns (), ?s2)"
    using s1 w1 by (intro sendall_ok) auto
  have s2: "sock ?s2 = Some n" "rfile ?s2" "rx ?s2 = reply_events f @ rest"
    using assms(1,2) by simp_all
  have w2: "writes_ok ?s2"
    by (rule writes_ok_tlI [OF w1]) simp
  let ?s3 = "?s2\<lparr>tx := tl (tx ?s2), rx := rest,
               sent := sent ?s2 @ [Bytes (''.'' @ [CHR 0x0D, CHR 0x0A])]\<rparr>"
  have dot: "command ''.'' ?s2 = (Returns (cf, reply_text (fst f) (snd f)), ?s3)"
    using s2 w2 assms(8,9) by (intro command_reply) (auto simp: reply_events_def)
  from data assms(7) body dot show ?thesis
    by (simp add: data_phase_def)
qed

lemma after_data_sent:
  "\<exists>t. sent (snd ((\<lambda>(code, msg) s.
               if code \<noteq> 354 then (Raises (SMTPError (''DATA failed: '' @ msg)), s)
               else
                 (case build_message as_string (config s) e of
                    Inl ex \<Rightarrow> (Raises ex, s)
                  | Inr message \<Rightarrow>
                      and_then (sendall (Document message) s) (\<lambda>_ s.
                      and_then (command ''.'' s) (\<lambda>(code, msg) s.
                        if code \<noteq> 250 then (Raises (SMTPError (''Send failed: '' @ msg)), s)
                        else (Returns True, s))))) a s1)) = sent s1 @ t
       \<and> set t \<subseteq> {Bytes (''.'' @ [CHR 0x0D, CHR 0x0A])} \<union> range Document"
proof -
  obtain code msg where a: "a = (code, msg)"
    by (cases a)
  show ?thesis
  proof (cases "code \<noteq> 354")
    case True
    with a show ?thesis by simp
  next
    case False
    show ?thesis
    proof (cases "build_message as_string (config s1) e")
      case (Inl ex)
      with a False show ?thesis by simp
    next
      case (Inr message)
      have "\<exists>t. sent (snd (and_then (sendall (Document message) s1) (\<lambda>_ s.
                      and_then (command ''.'' s) (\<lambda>(code, msg) s.
                        if code \<noteq> 250 then (Raises (SMTPError (''Send failed: '' @ msg)), s)
                        else (Returns True, s))))) = sent s1 @ t
         \<and> set t \<subseteq> {Bytes (''.'' @ [CHR 0x0D, CHR 0x0A])} \<union> range Document"
      proof (rule sent_and_then, goal_cases)
        case 1
        show ?case
          by (rule sent_mono [OF sent_sendall]) simp
      next
        case (2 u s2)
        show ?case
        proof (rule sent_and_then, goal_cases)
          case 1
          show ?case
            by (rule sent_mono [OF sent_command]) simp
        next
          case (2 b s3)
          show ?case
            by (cases b) simp
        qed
      qed
      with a False Inr show ?thesis by simp
    qed
  qed
qed

lemma data_phase_sent_first:
  assumes "sock s = Some n" "writes_ok s"
  shows "\<exists>tail. sent (snd (data_phase as_string e s))
            = sent s @ Bytes (''DATA'' @ [CHR 0x0D, CHR 0x0A]) # tail
          \<and> set tail \<subseteq> {Bytes (''.'' @ [CHR 0x0D, CHR 0x0A])} \<union> range Document"
proof -
  let ?s1 = "s\<lparr>tx := tl (tx s), sent := sent s @ [Bytes (''DATA'' @ [CHR 0x0D, CHR 0x0A])]\<rparr>"
  let ?K = "\<lambda>(code, msg) s.
               if code \<noteq> 354 then (Raises (SMTPError (''DATA failed: '' @ msg)), s)
               else
                 (case build_message as_string (config s) e of
                    Inl ex \<Rightarrow> (Raises ex, s)
                  | Inr message \<Rightarrow>
                      and_then (sendall (Document message) s) (\<lambda>_ s.
                      and_then (command ''.'' s) (\<lambda>(code, msg) s.
                        if code \<noteq> 250 then (Raises (SMTPError (''Send failed: '' @ msg)), s)
                        else (Returns True, s))))"
  have w: "sendall (Bytes (''DATA'' @ [CHR 0x0D, CHR 0x0A])) s = (Returns (), ?s1)"
    by (rule sendall_ok [OF assms])
  have dp: "data_phase as_string e s = and_then (read_response ?s1) ?K"
    unfolding data_phase_def command_def w by simp
  have "\<exists>t. sent (snd (and_then (read_response ?s1) ?K)) = sent ?s1 @ t
          \<and> set t \<subseteq> {Bytes (''.'' @ [CHR 0x0D, CHR 0x0A])} \<union> range Document"
  proof (rule sent_and_then, goal_cases)
    case 1
    show ?case
      by (simp add: sent_read_response)
  next
    case (2 a s2)
    show ?case
      by (rule after_data_sent)
  qed
  with dp show ?thesis
    by simp
qed

lemma example_replies:
  "reply_lines (fst ([], ''250 OK'' @ [CHR 0x0D, CHR 0x0A])) (snd ([], ''250 OK'' @ [CHR 0x0D, CHR 0x0A]))"
  "reply_lines (fst ([], ''354 Go'' @ [CHR 0x0D, CHR 0x0A])) (snd ([], ''354 Go'' @ [CHR 0x0D, CHR 0x0A]))"
  "reply_lines (fst ([], ''550 No'' @ [CHR 0x0D, CHR 0x0A])) (snd ([], ''550 No'' @ [CHR 0x0D, CHR 0x0A]))"
  "reply_code (snd ([], ''250 OK'' @ [CHR 0x0D, CHR 0x0A])) = Some 250"
  "reply_code (snd ([], ''354 Go'' @ [CHR 0x0D, CHR 0x0A])) = Some 354"
  "reply_code (snd ([], ''550 No'' @ [CHR 0x0D, CHR 0x0A])) = Some 550"
  "reply_text (fst ([], ''550 No'' @ [CHR 0x0D, CHR 0x0A])) (snd ([], ''550 No'' @ [CHR 0x0D, CHR 0x0A])) = ''550 No''"
  by (simp_all add: reply_lines_def reply_code_def reply_text_def rstrip_crlf_def is_final_def
      py_int_def Let_def py_isspace_def is_digit_def digit_of_def)





text \<open>
  Claim C10. With \<open>to\<close>, \<open>cc\<close> and \<open>bcc\<close> all empty, \<^verbatim>\<open>send\<close> raises nothing for the missing
  recipients: once MAIL FROM is accepted, the next command written is DATA, with no RCPT TO
  in between, and all that follows is the document and the final dot. When DATA is
  accepted, it raises what \<^verbatim>\<open>_build_message\<close> raises, if it does; when the document is
  built and the final dot accepted, it returns \<open>True\<close>.
\<close>

theorem send_without_recipients:
  assumes "to e = []" "cc e = []" "bcc e = []"
    and "sock s = Some n" "rfile s" "writes_ok s"
    and "rx s = reply_events m @ rest"
    and "reply_lines (fst m) (snd m)" "reply_code (snd m) = Some 250"
  shows
    "(\<exists>tail. sent (snd (send as_string e s)) =
        sent s
        @ [Bytes (''MAIL FROM:<'' @ (if from_addr e \<noteq> [] then from_addr e else username (config s))
                  @ ''>'' @ [CHR 0x0D, CHR 0x0A]),
           Bytes (''DATA'' @ [CHR 0x0D, CHR 0x0A])]
        @ tail
      \<and> set tail \<subseteq> {Bytes (''.'' @ [CHR 0x0D, CHR 0x0A])} \<union> range Document)
     \<and> (\<forall>d evs ex.
          rest = reply_events d @ evs \<and>
          reply_lines (fst d) (snd d) \<and> reply_code (snd d) = Some 354 \<and>
          build_message as_string (config s) e = Inl ex \<longrightarrow>
          fst (send as_string e s) = Raises ex)
     \<and> (\<forall>d f evs out.
          rest = reply_events d @ reply_events f @ evs \<and>
          reply_lines (fst d) (snd d) \<and> reply_code (snd d) = Some 354 \<and>
          reply_lines (fst f) (snd f) \<and> reply_code (snd f) = Some 250 \<and>
          build_message as_string (config s) e = Inr out \<longrightarrow>
          send as_string e s =
            (Returns True,
             s\<lparr>tx := drop 4 (tx s), rx := evs,
               sent := sent s @
                 [Bytes (''MAIL FROM:<'' @ (if from_addr e \<noteq> [] then from_addr e
                                             else username (config s))
                         @ ''>'' @ [CHR 0x0D, CHR 0x0A]),
                  Bytes (''DATA'' @ [CHR 0x0D, CHR 0x0A]),
                  Document out,
                  Bytes (''.'' @ [CHR 0x0D, CHR 0x0A])]\<rparr>))"
proof -
  let ?from = "if from_addr e \<noteq> [] then from_addr e else username (config s)"
  let ?s1 = "s\<lparr>tx := tl (tx s), rx := rest,
               sent := sent s @ [Bytes ((''MAIL FROM:<'' @ ?from @ ''>'') @ [CHR 0x0D, CHR 0x0A])]\<rparr>"
  have step: "send as_string e s = data_phase as_string e ?s1"
    using send_mail_step [OF assms(4-9), where as_string = as_string and e = e] assms(1-3)
    by simp
  have s1: "sock ?s1 = Some n" "rfile ?s1" "config ?s1 = config s" "rx ?s1 = rest"
    using assms(4,5) by simp_all
  have w1: "writes_ok ?s1"
    by (rule writes_ok_tlI [OF assms(6)]) simp
  have A: "\<exists>tail. sent (snd (send as_string e s)) =
        sent s
        @ [Bytes (''MAIL FROM:<'' @ ?from @ ''>'' @ [CHR 0x0D, CHR 0x0A]),
           Bytes (''DATA'' @ [CHR 0x0D, CHR 0x0A])]
        @ tail
      \<and> set tail \<subseteq> {Bytes (''.'' @ [CHR 0x0D, CHR 0x0A])} \<union> range Document"
    using data_phase_sent_first [OF s1(1) w1, where as_string = as_string and e = e]
    by (simp add: step)
  have B: "fst (send as_string e s) = Raises ex"
    if "rest = reply_events d @ evs" "reply_lines (fst d) (snd d)" "reply_code (snd d) = Some 354"
      "build_message as_string (config s) e = Inl ex"
    for d evs ex
  proof -
    from that(1) s1 have r: "rx ?s1 = reply_events d @ evs"
      by simp
    from that(4) have b: "build_message as_string (config ?s1) e = Inl ex"
      by simp
    from data_phase_build_fails [OF s1(1,2) w1 r that(2,3) b] show ?thesis
      by (simp add: step)
  qed
  have C: "send as_string e s =
            (Returns True,
             s\<lparr>tx := drop 4 (tx s), rx := evs,
               sent := sent s @
                 [Bytes (''MAIL FROM:<'' @ ?from @ ''>'' @ [CHR 0x0D, CHR 0x0A]),
                  Bytes (''DATA'' @ [CHR 0x0D, CHR 0x0A]),
                  Document out,
                  Bytes (''.'' @ [CHR 0x0D, CHR 0x0A])]\<rparr>)"
    if "rest = reply_events d @ reply_events f @ evs"
      "reply_lines (fst d) (snd d)" "reply_code (snd d) = Some 354"
      "reply_lines (fst f) (snd f)" "reply_code (snd f) = Some 250"
      "build_message as_string (config s) e = Inr out"
    for d f evs out
  proof -
    from that(1) s1 have r: "rx ?s1 = reply_events d @ reply_events f @ evs"
      by simp
    from that(6) have b: "build_message as_string (config ?s1) e = Inr out"
      by simp
    from data_phase_final [OF s1(1,2) w1 r that(2,3) b that(4,5)] show ?thesis
      by (simp add: step eval_nat_numeral drop_Suc)
  qed
  show ?thesis
  proof (intro conjI impI allI, goal_cases)
    case 1
    show ?case by (rule A)
  next
    case (2 d evs ex)
    then show ?case by (elim conjE) (rule B)
  next
    case (3 d f evs out)
    then show ?case by (elim conjE) (rule C)
  qed
qed

theorem send_without_recipients_witness:
  "send Inr (example_mail\<lparr>to := []\<rparr>)
     (example_client
        [Line (''250 OK'' @ [CHR 0x0D, CHR 0x0A]), Line (''354 Go'' @ [CHR 0x0D, CHR 0x0A]),
         Line (''250 OK'' @ [CHR 0x0D, CHR 0x0A])])
   = (Returns True,
      (example_client [])
        \<lparr>sent :=
          [Bytes (''MAIL FROM:<user@example.com>'' @ [CHR 0x0D, CHR 0x0A]),
           Bytes (''DATA'' @ [CHR 0x0D, CHR 0x0A]),
           Document (MIMEMultipart ''alternative''
             [(''Subject'', ''Test Email''), (''From'', ''user@example.com''), (''To'', [])]
             [MIMEText ''Hello from RoadSMTP!'' ''plain'' [],
              MIMEText ''<h1>Hello from RoadSMTP!</h1>'' ''html'' []]),
           Bytes (''.'' @ [CHR 0x0D, CHR 0x0A])]\<rparr>)"
proof -
  let ?e = "example_mail\<lparr>to := []\<rparr>"
  let ?ok = "([], ''250 OK'' @ [CHR 0x0D, CHR 0x0A])"
  let ?go = "([], ''354 Go'' @ [CHR 0x0D, CHR 0x0A])"
  let ?s = "example_client
        [Line (''250 OK'' @ [CHR 0x0D, CHR 0x0A]), Line (''354 Go'' @ [CHR 0x0D, CHR 0x0A]),
         Line (''250 OK'' @ [CHR 0x0D, CHR 0x0A])] :: mime client"
  let ?doc = "MIMEMultipart ''alternative''
             [(''Subject'', ''Test Email''), (''From'', ''user@example.com''), (''To'', [])]
             [MIMEText ''Hello from RoadSMTP!'' ''plain'' [],
              MIMEText ''<h1>Hello from RoadSMTP!</h1>'' ''html'' []]"
  have h1: "to ?e = []" "cc ?e = []" "bcc ?e = []"
    by (simp_all add: example_mail_def)
  have h2: "sock ?s = Some 0" "rfile ?s" "writes_ok ?s"
    by (simp_all add: example_client_simps)
  have h3: "rx ?s = reply_events ?ok @ (reply_events ?go @ reply_events ?ok @ [])"
    by (simp add: example_client_simps reply_events_def)
  have h4: "build_message Inr (config ?s) ?e = Inr ?doc"
    by (simp add: build_message_def example_client_simps build_example_no_to)
  have p: "reply_events ?go @ reply_events ?ok @ [] = reply_events ?go @ reply_events ?ok @ [] \<and>
           reply_lines (fst ?go) (snd ?go) \<and> reply_code (snd ?go) = Some 354 \<and>
           reply_lines (fst ?ok) (snd ?ok) \<and> reply_code (snd ?ok) = Some 250 \<and>
           build_message Inr (config ?s) ?e = Inr ?doc"
    by (intro conjI refl h4 example_replies(1) example_replies(2) example_replies(4)
        example_replies(5))
  note send_without_recipients [OF h1 h2 h3 example_replies(1,4),
      where as_string = Inr, THEN conjunct2, THEN conjunct2, rule_format, OF p]
  then show ?thesis
    by (simp add: example_client_def new_client_def example_mail_def example_config_def)
qed

end
